theory Spec2Isabelle
  imports Complex_Main "HOL-Library.Word"
begin

section \<open>Data model\<close>

text \<open>
  The executor of the HE backend (\<^verbatim>\<open>src/seal/he_seal_executable.cpp\<close>) works on tensors
  whose slots are tagged values: an encoded plaintext or a SEAL ciphertext. The ciphertext is an
  opaque handle of the SEAL library; what the executor reads of it is its position in the
  modulus chain (\<^verbatim>\<open>HESealBackend::get_chain_index\<close>) and its scale.
\<close>

type_synonym size_t = "64 word"

definition SIZE_MAX :: size_t where
  "SIZE_MAX = - 1"

type_synonym HEPlaintext = "real list"

record SealCiphertextWrapper =
  chain_index :: size_t
  scale :: real
  payload :: nat

datatype he_value = Plain HEPlaintext | Cipher SealCiphertextWrapper

record HEType =
  he_value :: he_value
  complex_packing :: bool
  plaintext_packing :: bool
  he_batch_size :: nat

definition is_plaintext :: "HEType \<Rightarrow> bool" where
  "is_plaintext h = (case he_value h of Plain p \<Rightarrow> True | Cipher c \<Rightarrow> False)"

definition is_ciphertext :: "HEType \<Rightarrow> bool" where
  "is_ciphertext h = (case he_value h of Plain p \<Rightarrow> False | Cipher c \<Rightarrow> True)"

definition get_plaintext :: "HEType \<Rightarrow> HEPlaintext" where
  "get_plaintext h = (case he_value h of Plain p \<Rightarrow> p | Cipher c \<Rightarrow> [])"

text \<open>
  \<^verbatim>\<open>HEType(HEPlaintext(), false)\<close>: an empty plaintext without complex packing. The
  constructor is not among the sources; the batch size of the empty plaintext is taken as 0.
\<close>

definition empty_HEType :: HEType where
  "empty_HEType =
    \<lparr>he_value = Plain [], complex_packing = False, plaintext_packing = False,
     he_batch_size = 0\<rparr>"

text \<open>\<^verbatim>\<open>HEType::set_plaintext\<close> replaces the value and keeps the packing flag.\<close>

definition set_plaintext :: "HEPlaintext \<Rightarrow> HEType \<Rightarrow> HEType" where
  "set_plaintext p h = h\<lparr>he_value := Plain p\<rparr>"

record HETensor =
  data :: "HEType list"
  shape :: "nat list"
  is_packed :: bool
  packed_shape :: "nat list"
  batch_size :: nat
  batched_element_count :: nat

text \<open>
  A graph node, as far as the executor reads it: its description (the name of its operator
  type), the reduction axes of \<^verbatim>\<open>Max\<close> or the axes of \<^verbatim>\<open>Softmax\<close>, the upper bounds of
  \<^verbatim>\<open>Slice\<close> and the bound of \<^verbatim>\<open>BoundedRelu\<close>. The remaining attributes (window shapes,
  strides, paddings) are only handed on to the kernels.
\<close>

record Node =
  description :: string
  axes :: "nat list"
  upper_bounds :: "nat list"
  alpha :: real

datatype error =
  unsupported_op string
  | CheckFailure string
  | OutOfRange
  | Blocked
  | KernelFailure string

definition then_do :: "error + 'a \<Rightarrow> ('a \<Rightarrow> error + 'b) \<Rightarrow> error + 'b" where
  "then_do m f = (case m of Inl e \<Rightarrow> Inl e | Inr x \<Rightarrow> f x)"

definition NGRAPH_CHECK :: "bool \<Rightarrow> string \<Rightarrow> error + 'a \<Rightarrow> error + 'a" where
  "NGRAPH_CHECK c msg k = (if c then k else Inl (CheckFailure msg))"

subsection \<open>Operator identifiers\<close>

text \<open>
  \<^verbatim>\<open>OP_TYPEID\<close> is an enumeration of 160 operator identifiers. The switch of
  \<^verbatim>\<open>generate_calls\<close> gives 27 of them a case of their own and sends the other 133, listed
  under the comment \<^verbatim>\<open>// Unsupported ops\<close>, to one common \<^verbatim>\<open>throw\<close>. The 27 are
  constructors here; \<open>Unsupported n\<close> is the enumerator named \<open>n\<close> of the common group
  (\<open>unsupported_ids\<close> lists the names, \<^verbatim>\<open>UnknownOp\<close> last).
\<close>

datatype OP_TYPEID =
  Add | AvgPool | BatchNormInference | BoundedRelu | Broadcast | Concat | Constant
  | Convolution | Divide | Dot | Exp | Max_op | MaxPool | Minimum | Multiply | Negative
  | Pad | Parameter | Power | Relu | Reshape | Result | Reverse | Slice | Softmax
  | Subtract | Sum | Unsupported string

definition supported_ids :: "(string \<times> OP_TYPEID) list" where
  "supported_ids =
    [(''Add'', Add), (''AvgPool'', AvgPool), (''BatchNormInference'', BatchNormInference),
     (''BoundedRelu'', BoundedRelu), (''Broadcast'', Broadcast), (''Concat'', Concat),
     (''Constant'', Constant), (''Convolution'', Convolution), (''Divide'', Divide),
     (''Dot'', Dot), (''Exp'', Exp), (''Max'', Max_op), (''MaxPool'', MaxPool),
     (''Minimum'', Minimum), (''Multiply'', Multiply), (''Negative'', Negative),
     (''Pad'', Pad), (''Parameter'', Parameter), (''Power'', Power), (''Relu'', Relu),
     (''Reshape'', Reshape), (''Result'', Result), (''Reverse'', Reverse),
     (''Slice'', Slice), (''Softmax'', Softmax), (''Subtract'', Subtract), (''Sum'', Sum)]"

definition unsupported_ids :: "string list" where
  "unsupported_ids =
    [''Abs'', ''Acos'', ''All'', ''AllReduce'', ''And'', ''Any'', ''ArgMax'', ''ArgMin'',
     ''Asin'', ''Atan'', ''Atan2'', ''AvgPoolBackprop'', ''BatchMatMul'',
     ''BatchMatMulTranspose'', ''BatchNormTraining'', ''BatchNormTrainingBackprop'',
     ''BroadcastDistributed'', ''BroadcastLike'', ''Ceiling'', ''Clamp'', ''Convert'',
     ''ConvolutionBackpropData'', ''ConvolutionBackpropFilters'', ''ConvolutionBias'',
     ''ConvolutionBiasAdd'', ''ConvolutionBiasBackpropFiltersBias'', ''Cos'', ''Cosh'',
     ''CrossEntropy'', ''CrossEntropyBackprop'', ''CropAndResize'', ''CumSum'',
     ''DepthToSpace'', ''Dequantize'', ''DynBroadcast'', ''DynPad'', ''DynReshape'',
     ''DynSlice'', ''DynReplaceSlice'', ''Elu'', ''EmbeddingLookup'', ''Equal'', ''Erf'',
     ''FakeQuantize'', ''Floor'', ''Gather'', ''GatherND'', ''GenerateMask'',
     ''GetOutputElement'', ''Gelu'', ''Gemm'', ''GroupConvolution'',
     ''GroupConvolutionBackpropData'', ''GroupConvolutionBackpropFilters'',
     ''GroupConvolutionTranspose'', ''GeluBackpropFactor'', ''Greater'', ''GreaterEq'',
     ''GRN'', ''GRUCell'', ''HardSigmoid'', ''Interpolate'', ''LayerNorm'',
     ''LayerNormBackprop'', ''Less'', ''LessEq'', ''Log'', ''LRN'', ''LSTMCell'',
     ''LSTMSequence'', ''Maximum'', ''MatMul'', ''MaxPoolBackprop'', ''MVN'', ''Min'',
     ''NormalizeL2'', ''Not'', ''NotEqual'', ''OneHot'', ''Or'', ''Passthrough'', ''PRelu'',
     ''PartialSlice'', ''PartialSliceBackprop'', ''Product'', ''Quantize'',
     ''QuantizedConvolutionBias'', ''QuantizedConvolutionBiasAdd'',
     ''QuantizedConvolutionBiasSignedAdd'', ''QuantizedConvolutionRelu'',
     ''QuantizedConvolution'', ''QuantizedDot'', ''QuantizedDotBias'', ''Recv'', ''Range'',
     ''RandomUniform'', ''ReluBackprop'', ''ReplaceSlice'', ''ReverseSequence'', ''Round'',
     ''RNNCell'', ''ScalarConstantLike'', ''ScaleShift'', ''ScatterAdd'', ''ScatterND'',
     ''ScatterNDAdd'', ''ShapeOf'', ''Send'', ''Select'', ''Selu'', ''ShuffleChannels'',
     ''Sigmoid'', ''SigmoidBackprop'', ''Sign'', ''Sin'', ''Sinh'', ''SoftmaxCrossEntropy'',
     ''SoftmaxCrossEntropyBackprop'', ''SpaceToDepth'', ''Split'', ''SquaredDifference'',
     ''Squeeze'', ''Sqrt'', ''Stack'', ''StopGradient'', ''Tan'', ''Tanh'',
     ''TensorIterator'', ''Tile'', ''TopK'', ''Unsqueeze'', ''Xor'', ''UnknownOp'']"

text \<open>
  \<^verbatim>\<open>HESealExecutable::get_typeid\<close> looks the node's type up in a map built from the
  operator table \<^verbatim>\<open>opset_he_seal_tbl.hpp\<close> and answers \<^verbatim>\<open>UnknownOp\<close> for a type the map
  does not hold. The table file is not among the sources; the macro around its inclusion maps
  every entry \<^verbatim>\<open>NAME\<close> to the enumerator \<^verbatim>\<open>OP_TYPEID::NAME\<close>, so the map is taken to hold
  every enumerator but \<^verbatim>\<open>UnknownOp\<close> under its own name.
\<close>

definition get_typeid :: "string \<Rightarrow> OP_TYPEID" where
  "get_typeid n =
    (case map_of supported_ids n of
       Some t \<Rightarrow> t
     | None \<Rightarrow> if n \<in> set (butlast unsupported_ids) then Unsupported n
               else Unsupported ''UnknownOp'')"

subsection \<open>Kernels, messages and the state of the executable\<close>

text \<open>
  The kernels live in \<^verbatim>\<open>seal/kernel/*.cpp\<close>. The executor only chooses which one to call, on
  which operands and under which backend flags, so a kernel is a parameter here: a function of
  the backend it is handed (it reads \<^verbatim>\<open>lazy_mod()\<close>, as \<^verbatim>\<open>scalar_add_seal\<close> does), of the
  node, of the operand slots and of the current output slots, that answers the new output
  slots or an error. Changes a kernel makes to its operands in place are not tracked.
\<close>

datatype kernel =
  add_seal | avg_pool_seal | batch_norm_inference_seal | bounded_relu_seal | broadcast_seal
  | concat_seal | constant_seal | convolution_seal | divide_seal | dot_seal | exp_seal
  | max_seal | max_pool_seal | minimum_seal | multiply_seal | negate_seal | pad_seal
  | power_seal | relu_seal | reshape_seal | result_seal | reverse_seal | slice_seal
  | softmax_seal | subtract_seal | sum_seal | mod_reduce_seal | rescale_seal

record HESealBackend =
  m_lazy_mod :: bool
  m_enable_client :: bool

datatype TCPMessage_Type = UNKNOWN | REQUEST | RESPONSE

text \<open>
  A protocol message: its type, the name in its function descriptor (if it has one) and its
  wire tensors. A wire tensor is given by the slots it carries; serialisation of a slot to
  bytes and back (\<^verbatim>\<open>write_to_pb_tensors\<close>, \<^verbatim>\<open>load_from_pb_tensor\<close>) is taken as transparent.
\<close>

record TCPMessage =
  msg_type :: TCPMessage_Type
  function_name :: "string option"
  he_tensors :: "HEType list list"

text \<open>
  What the executor thread does that another party can observe, in program order: a kernel
  invocation together with the value of \<^verbatim>\<open>lazy_mod()\<close> at that moment, a message written to
  the session, and a return from a blocking wait on a condition variable.
\<close>

datatype event =
  KernelCall kernel bool
  | Write TCPMessage
  | WaitMaxPoolDone
  | WaitReluDone

record Parameter_node =
  param_name :: string
  from_client :: bool

record HESealExecutable =
  m_he_seal_backend :: HESealBackend
  m_parameters :: "Parameter_node list"
  m_results :: "string list"
  m_server_setup :: bool
  m_client_outputs :: "HETensor list"
  m_relu_data :: "HEType list"
  m_unknown_relu_idx :: "nat list"
  m_relu_done_count :: nat
  m_max_pool_data :: "HEType list"
  m_max_pool_done :: bool
  events :: "event list"

text \<open>
  The parts of the program that the executor calls and that are not in
  \<^verbatim>\<open>he_seal_executable.cpp\<close>, and the client at the other end of the session, are the fields
  of an environment:
  \<^item> \<open>kernels\<close>: the kernel set;
  \<^item> \<open>write_to_pb_tensors\<close>: \<^verbatim>\<open>HETensor::write_to_pb_tensors\<close>, from a tensor to the wire
    tensors that carry it;
  \<^item> \<open>max_pool_seal_max_list\<close>: for a MaxPool node, the list of input indices of every
    output cell;
  \<^item> \<open>scalar_relu_seal\<close>, \<open>scalar_bounded_relu_seal\<close>: the plaintext routines;
  \<^item> \<open>client\<close>: the response the client returns to a request;
  \<^item> \<open>handle_client_ciphers\<close>: the handler of the client's input tensors; it fills
    \<^verbatim>\<open>m_client_inputs\<close>, which is not part of the state kept here, so all that is seen of
    it is whether it raises;
  \<^item> \<open>validate\<close> and \<open>execute_graph\<close>: see \<open>call\<close>.
\<close>

record env =
  kernels :: "kernel \<Rightarrow> HESealBackend \<Rightarrow> Node \<Rightarrow> HEType list list \<Rightarrow> HEType list
              \<Rightarrow> error + HEType list"
  write_to_pb_tensors :: "HETensor \<Rightarrow> HEType list list"
  max_pool_seal_max_list :: "Node \<Rightarrow> nat list list"
  scalar_relu_seal :: "HEPlaintext \<Rightarrow> HEPlaintext"
  scalar_bounded_relu_seal :: "HEPlaintext \<Rightarrow> real \<Rightarrow> HEPlaintext"
  client :: "TCPMessage \<Rightarrow> TCPMessage"
  handle_client_ciphers :: "HESealExecutable \<Rightarrow> TCPMessage \<Rightarrow> error + unit"
  validate :: "HESealExecutable \<Rightarrow> error + unit"
  execute_graph :: "HESealExecutable \<Rightarrow> error + HESealExecutable"

definition lazy_mod :: "HESealExecutable \<Rightarrow> bool" where
  "lazy_mod ex = m_lazy_mod (m_he_seal_backend ex)"

definition set_lazy_mod :: "bool \<Rightarrow> HESealExecutable \<Rightarrow> HESealExecutable" where
  "set_lazy_mod b ex = ex\<lparr>m_he_seal_backend := (m_he_seal_backend ex)\<lparr>m_lazy_mod := b\<rparr>\<rparr>"

definition enable_client :: "HESealExecutable \<Rightarrow> bool" where
  "enable_client ex = m_enable_client (m_he_seal_backend ex)"

definition log_event :: "event \<Rightarrow> HESealExecutable \<Rightarrow> HESealExecutable" where
  "log_event e ex = ex\<lparr>events := events ex @ [e]\<rparr>"

text \<open>\<^verbatim>\<open>m_session->write_message\<close>.\<close>

definition write_message :: "TCPMessage \<Rightarrow> HESealExecutable \<Rightarrow> HESealExecutable" where
  "write_message m ex = log_event (Write m) ex"

definition run_kernel ::
  "env \<Rightarrow> kernel \<Rightarrow> Node \<Rightarrow> HEType list list \<Rightarrow> HEType list \<Rightarrow> HESealExecutable
   \<Rightarrow> error + (HESealExecutable \<times> HEType list)" where
  "run_kernel E k node operands outd ex =
    then_do (kernels E k (m_he_seal_backend ex) node operands outd)
      (\<lambda>d. Inr (log_event (KernelCall k (lazy_mod ex)) ex, d))"

section \<open>Modulus-chain manager\<close>

text \<open>
  Modelled from the spec: \<^verbatim>\<open>match_to_smallest_chain_index\<close> is defined in
  \<^verbatim>\<open>seal/seal_util.cpp\<close>, which is not among the sources (only its test and its caller
  \<^verbatim>\<open>handle_server_relu_op\<close> are). The spec (4.2): scan all ciphertext slots, find the
  minimum chain index, mod-switch every ciphertext above that index down to it; plaintext
  slots are not modified; the result is \<^verbatim>\<open>SIZE_MAX\<close> when there are no ciphertexts.
  Mod-switching moves the ciphertext to the target position of the chain and leaves its scale.
\<close>

definition mod_switch_to :: "size_t \<Rightarrow> SealCiphertextWrapper \<Rightarrow> SealCiphertextWrapper" where
  "mod_switch_to i c = c\<lparr>chain_index := i\<rparr>"

primrec chain_indices :: "HEType list \<Rightarrow> size_t list" where
  "chain_indices [] = []"
| "chain_indices (h # hs) =
    (case he_value h of
       Plain p \<Rightarrow> chain_indices hs
     | Cipher c \<Rightarrow> chain_index c # chain_indices hs)"

definition smallest_chain_index :: "HEType list \<Rightarrow> size_t" where
  "smallest_chain_index slots = fold min (chain_indices slots) SIZE_MAX"

definition switch_slot :: "size_t \<Rightarrow> HEType \<Rightarrow> HEType" where
  "switch_slot smallest h =
    (case he_value h of
       Plain p \<Rightarrow> h
     | Cipher c \<Rightarrow>
         if smallest < chain_index c then h\<lparr>he_value := Cipher (mod_switch_to smallest c)\<rparr>
         else h)"

definition match_to_smallest_chain_index :: "HEType list \<Rightarrow> size_t \<times> HEType list" where
  "match_to_smallest_chain_index slots =
    (let smallest = smallest_chain_index slots
     in (smallest, map (switch_slot smallest) slots))"

section \<open>Session thread: handlers of client responses\<close>

text \<open>
  \<^verbatim>\<open>handle_relu_result\<close>: the slots of the response are stored at the positions
  \<^verbatim>\<open>m_unknown_relu_idx[result_idx + m_relu_done_count]\<close> of \<^verbatim>\<open>m_relu_data\<close>. The source
  indexes both vectors unchecked; an index out of range is the error \<open>OutOfRange\<close> here.
\<close>

fun store_relu_results :: "HEType list \<Rightarrow> nat \<Rightarrow> HESealExecutable \<Rightarrow> error + HESealExecutable"
where
  "store_relu_results [] result_idx ex = Inr ex"
| "store_relu_results (h # hs) result_idx ex =
    (let k = result_idx + m_relu_done_count ex in
     if k < length (m_unknown_relu_idx ex)
        \<and> m_unknown_relu_idx ex ! k < length (m_relu_data ex)
     then store_relu_results hs (Suc result_idx)
            (ex\<lparr>m_relu_data := (m_relu_data ex)[m_unknown_relu_idx ex ! k := h]\<rparr>)
     else Inl OutOfRange)"

definition handle_relu_result :: "HESealExecutable \<Rightarrow> TCPMessage \<Rightarrow> error + HESealExecutable"
where
  "handle_relu_result ex pb_message =
    NGRAPH_CHECK (length (he_tensors pb_message) = 1)
      ''Can only handle one tensor at a time''
      (let pb_tensor = he_tensors pb_message ! 0;
           result_count = length pb_tensor
       in then_do (store_relu_results pb_tensor 0 ex)
            (\<lambda>ex1. Inr (ex1\<lparr>m_relu_done_count := m_relu_done_count ex1 + result_count\<rparr>)))"

definition handle_bounded_relu_result ::
  "HESealExecutable \<Rightarrow> TCPMessage \<Rightarrow> error + HESealExecutable" where
  "handle_bounded_relu_result ex pb_message = handle_relu_result ex pb_message"

definition handle_max_pool_result ::
  "HESealExecutable \<Rightarrow> TCPMessage \<Rightarrow> error + HESealExecutable" where
  "handle_max_pool_result ex pb_message =
    NGRAPH_CHECK (length (he_tensors pb_message) = 1)
      ''Can only handle one tensor at a time''
      (let pb_tensor = he_tensors pb_message ! 0;
           result_count = length pb_tensor
       in NGRAPH_CHECK (result_count = 1) ''Maxpool only supports result_count 1''
            (Inr (ex\<lparr>m_max_pool_data := m_max_pool_data ex @ [pb_tensor ! 0],
                     m_max_pool_done := True\<rparr>)))"

text \<open>
  \<^verbatim>\<open>handle_message\<close>. The key exchange at the head of the \<^verbatim>\<open>RESPONSE\<close> case (public key,
  evaluation key, inference shape) touches no state kept here and is left out.
\<close>

definition handle_message ::
  "env \<Rightarrow> HESealExecutable \<Rightarrow> TCPMessage \<Rightarrow> error + HESealExecutable" where
  "handle_message E ex message =
    (case msg_type message of
       RESPONSE \<Rightarrow>
         (case function_name message of
            None \<Rightarrow> Inr ex
          | Some name \<Rightarrow>
              NGRAPH_CHECK (name \<in> {''Relu'', ''BoundedRelu'', ''MaxPool''})
                ''Unknown function name''
                (if name = ''Relu'' then handle_relu_result ex message
                 else if name = ''BoundedRelu'' then handle_bounded_relu_result ex message
                 else if name = ''MaxPool'' then handle_max_pool_result ex message
                 else Inr ex))
     | REQUEST \<Rightarrow>
         (if 0 < length (he_tensors message)
          then then_do (handle_client_ciphers E ex message) (\<lambda>u. Inr ex)
          else Inr ex)
     | UNKNOWN \<Rightarrow> Inl (CheckFailure ''Unknonwn TCPMessage type''))"

section \<open>Executor thread: client-aided nonlinear operations\<close>

text \<open>
  The request tensor \<^verbatim>\<open>HETensor(type, Shape{batch_size, n}, packed, ...)\<close> whose data is
  then overwritten by the batch. Modelled from the spec: the constructor is in
  \<^verbatim>\<open>he_tensor.cpp\<close>, which is not among the sources; by the spec (3) the batch size of a
  tensor is \<open>shape[0]\<close> when packed and 1 otherwise, and its batched element count is the
  size of the shape divided by the batch size. Element type and complex packing of the tensor
  are not modelled.
\<close>

definition request_tensor :: "nat \<Rightarrow> bool \<Rightarrow> HEType list \<Rightarrow> HETensor" where
  "request_tensor bs packed cipher_batch =
    (let n = length cipher_batch; b = (if packed then bs else 1)
     in \<lparr>data = cipher_batch, shape = [bs, n], is_packed = packed,
         packed_shape = (if packed then [1, n] else [bs, n]),
         batch_size = b, batched_element_count = (bs * n) div b\<rparr>)"

definition request_message :: "Node \<Rightarrow> HEType list \<Rightarrow> TCPMessage" where
  "request_message node pb_tensor =
    \<lparr>msg_type = REQUEST, function_name = Some (description node), he_tensors = [pb_tensor]\<rparr>"

text \<open>\<^verbatim>\<open>arg->data(i)\<close> for every index of a list; an index out of range is an error.\<close>

fun gather :: "HEType list \<Rightarrow> nat list \<Rightarrow> error + HEType list" where
  "gather slots [] = Inr []"
| "gather slots (i # is) =
    (if i < length slots
     then then_do (gather slots is) (\<lambda>rest. Inr (slots ! i # rest))
     else Inl OutOfRange)"

subsection \<open>MaxPool\<close>

text \<open>
  \<^verbatim>\<open>HETensor max_pool_tensor(type, Shape{cipher_batch[0].batch_size(), cipher_batch.size()},
  cipher_batch[0].plaintext_packing(), ...); max_pool_tensor.data() = cipher_batch\<close>.
\<close>

definition max_pool_tensor :: "HEType list \<Rightarrow> HETensor" where
  "max_pool_tensor cipher_batch =
    request_tensor (he_batch_size (cipher_batch ! 0)) (plaintext_packing (cipher_batch ! 0))
      cipher_batch"

text \<open>
  The loop of \<^verbatim>\<open>handle_server_max_pool_op\<close> over the maximize lists. After writing the
  request the executor blocks on \<^verbatim>\<open>m_max_pool_cond\<close> until \<^verbatim>\<open>m_max_pool_done\<close> holds;
  meanwhile the session thread handles what the client sends back. A wait whose condition
  does not come to hold never returns: the error \<open>Blocked\<close>.
\<close>

fun max_pool_loop ::
  "env \<Rightarrow> Node \<Rightarrow> HETensor \<Rightarrow> nat list list \<Rightarrow> HESealExecutable \<Rightarrow> error + HESealExecutable"
where
  "max_pool_loop E node arg [] ex = Inr ex"
| "max_pool_loop E node arg (maximize_list # rest) ex =
    then_do (gather (data arg) maximize_list) (\<lambda>cipher_batch.
      NGRAPH_CHECK (cipher_batch \<noteq> []) ''Maxpool cipher batch is empty''
        (let pb_tensors = write_to_pb_tensors E (max_pool_tensor cipher_batch)
         in NGRAPH_CHECK (length pb_tensors = 1) ''Only support MaxPool with 1 proto tensor''
              (let pb_message = request_message node (pb_tensors ! 0);
                   ex1 = write_message pb_message ex
               in then_do (handle_message E ex1 (client E pb_message)) (\<lambda>ex2.
                    if m_max_pool_done ex2
                    then max_pool_loop E node arg rest
                           ((log_event WaitMaxPoolDone ex2)\<lparr>m_max_pool_done := False\<rparr>)
                    else Inl Blocked))))"

definition handle_server_max_pool_op ::
  "env \<Rightarrow> HETensor \<Rightarrow> HETensor \<Rightarrow> Node \<Rightarrow> HESealExecutable
   \<Rightarrow> error + (HESealExecutable \<times> HETensor \<times> HETensor)" where
  "handle_server_max_pool_op E arg out node ex =
    (let ex1 = ex\<lparr>m_max_pool_done := False\<rparr>;
         maximize_lists = max_pool_seal_max_list E node;
         ex2 = ex1\<lparr>m_max_pool_data := []\<rparr>
     in then_do (max_pool_loop E node arg maximize_lists ex2)
          (\<lambda>ex3. Inr (ex3, arg, out\<lparr>data := m_max_pool_data ex3\<rparr>)))"

text \<open>
  The responses that \<^verbatim>\<open>handle_message\<close> routes to \<^verbatim>\<open>handle_max_pool_result\<close> and that
  the handler accepts: one wire tensor with one slot.
\<close>

definition good_max_pool_response :: "TCPMessage \<Rightarrow> bool" where
  "good_max_pool_response r \<longleftrightarrow>
     msg_type r = RESPONSE \<and> function_name r = Some ''MaxPool''
     \<and> length (he_tensors r) = 1 \<and> length (he_tensors r ! 0) = 1"

text \<open>The request that the loop writes for one maximize list.\<close>

definition max_pool_request :: "env \<Rightarrow> Node \<Rightarrow> HETensor \<Rightarrow> nat list \<Rightarrow> TCPMessage" where
  "max_pool_request E node arg maximize_list =
    request_message node
      (write_to_pb_tensors E (max_pool_tensor (map ((!) (data arg)) maximize_list)) ! 0)"

subsection \<open>Relu and BoundedRelu\<close>

text \<open>\<^verbatim>\<open>std::vector::resize(n, value)\<close>.\<close>

definition resize :: "nat \<Rightarrow> 'a \<Rightarrow> 'a list \<Rightarrow> 'a list" where
  "resize n v xs = take n xs @ replicate (n - length xs) v"

text \<open>The loop \<^verbatim>\<open>// Process known values\<close>, over the slot indices in ascending order.\<close>

fun process_known_values ::
  "env \<Rightarrow> OP_TYPEID \<Rightarrow> Node \<Rightarrow> HETensor \<Rightarrow> nat list \<Rightarrow> HESealExecutable \<Rightarrow> HESealExecutable"
where
  "process_known_values E type_id node arg [] ex = ex"
| "process_known_values E type_id node arg (relu_idx # rest) ex =
    (let he_type = data arg ! relu_idx in
     process_known_values E type_id node arg rest
       (if is_plaintext he_type
        then ex\<lparr>m_relu_data := (m_relu_data ex)
                 [relu_idx :=
                    set_plaintext
                      (if type_id = Relu then scalar_relu_seal E (get_plaintext he_type)
                       else scalar_bounded_relu_seal E (get_plaintext he_type) (alpha node))
                      (m_relu_data ex ! relu_idx)]\<rparr>
        else ex\<lparr>m_unknown_relu_idx := m_unknown_relu_idx ex @ [relu_idx]\<rparr>))"

text \<open>
  \<^verbatim>\<open>HETensor(type, Shape{cipher_batch[0].batch_size(), cipher_batch.size()},
  arg->is_packed(), ...)\<close> with \<^verbatim>\<open>relu_tensor->data() = cipher_batch\<close>.
\<close>

definition relu_tensor :: "HETensor \<Rightarrow> HEType list \<Rightarrow> HETensor" where
  "relu_tensor arg cipher_batch =
    request_tensor (he_batch_size (cipher_batch ! 0)) (is_packed arg) cipher_batch"

text \<open>
  The lambda \<^verbatim>\<open>process_unknown_relu_ciphers_batch\<close>: one request per wire tensor of the
  batch. It only writes; it does not wait.
\<close>

definition process_unknown_relu_ciphers_batch ::
  "env \<Rightarrow> Node \<Rightarrow> HETensor \<Rightarrow> HEType list \<Rightarrow> HESealExecutable \<Rightarrow> HESealExecutable" where
  "process_unknown_relu_ciphers_batch E node arg cipher_batch ex =
    (let pb_tensors = write_to_pb_tensors E (relu_tensor arg cipher_batch)
     in fold (\<lambda>pb_tensor. write_message (request_message node pb_tensor)) pb_tensors ex)"

definition max_relu_message_cnt :: nat where
  "max_relu_message_cnt = 1000"

text \<open>
  The loop \<^verbatim>\<open>// Process unknown values\<close> over \<^verbatim>\<open>m_unknown_relu_idx\<close>; it returns the batch
  still open at the end together with the state.
\<close>

fun process_unknown_values ::
  "env \<Rightarrow> Node \<Rightarrow> HETensor \<Rightarrow> nat list \<Rightarrow> HEType list \<Rightarrow> HESealExecutable
   \<Rightarrow> error + (HEType list \<times> HESealExecutable)" where
  "process_unknown_values E node arg [] relu_ciphers_batch ex = Inr (relu_ciphers_batch, ex)"
| "process_unknown_values E node arg (unknown_relu_idx # rest) relu_ciphers_batch ex =
    NGRAPH_CHECK (is_ciphertext (data arg ! unknown_relu_idx)) ''HEType should be ciphertext''
      (let batch = relu_ciphers_batch @ [data arg ! unknown_relu_idx] in
       if length batch = max_relu_message_cnt
       then process_unknown_values E node arg rest []
              (process_unknown_relu_ciphers_batch E node arg batch ex)
       else process_unknown_values E node arg rest batch ex)"

text \<open>The messages written in a trace, in the order of writing.\<close>

primrec written :: "event list \<Rightarrow> TCPMessage list" where
  "written [] = []"
| "written (e # es) =
    (case e of Write m \<Rightarrow> m # written es | KernelCall k b \<Rightarrow> written es
     | WaitMaxPoolDone \<Rightarrow> written es | WaitReluDone \<Rightarrow> written es)"

text \<open>The session thread handles the client's responses in the order of their arrival.\<close>

fun handle_responses ::
  "env \<Rightarrow> TCPMessage list \<Rightarrow> HESealExecutable \<Rightarrow> error + HESealExecutable" where
  "handle_responses E [] ex = Inr ex"
| "handle_responses E (request # rest) ex =
    then_do (handle_message E ex (client E request)) (handle_responses E rest)"

text \<open>
  \<^verbatim>\<open>handle_server_relu_op\<close>. It changes the operand tensor in place (the chain indices are
  matched), so the operand is returned as well. All requests are written first; the one wait
  on \<^verbatim>\<open>m_relu_cond\<close> for \<^verbatim>\<open>m_relu_done_count == m_unknown_relu_idx.size()\<close> follows them.
\<close>

definition send_relu_requests ::
  "env \<Rightarrow> HETensor \<Rightarrow> Node \<Rightarrow> HESealExecutable
   \<Rightarrow> error + (HESealExecutable \<times> HETensor)" where
  "send_relu_requests E arg node ex =
    (let type_id = get_typeid (description node) in
     NGRAPH_CHECK (type_id = Relu \<or> type_id = BoundedRelu) ''only support relu / bounded relu''
       (let element_count = length (data arg);
            arg1 = arg\<lparr>data := snd (match_to_smallest_chain_index (data arg))\<rparr>;
            ex1 = ex\<lparr>m_relu_data := resize element_count empty_HEType (m_relu_data ex)\<rparr>;
            ex2 = ex1\<lparr>m_unknown_relu_idx := []\<rparr>;
            ex3 = process_known_values E type_id node arg1 [0..<element_count] ex2
        in then_do (process_unknown_values E node arg1 (m_unknown_relu_idx ex3) [] ex3)
             (\<lambda>(relu_ciphers_batch, ex4).
                Inr (if relu_ciphers_batch \<noteq> []
                     then process_unknown_relu_ciphers_batch E node arg1 relu_ciphers_batch ex4
                     else ex4, arg1))))"

definition handle_server_relu_op ::
  "env \<Rightarrow> HETensor \<Rightarrow> HETensor \<Rightarrow> Node \<Rightarrow> HESealExecutable
   \<Rightarrow> error + (HESealExecutable \<times> HETensor \<times> HETensor)" where
  "handle_server_relu_op E arg out node ex =
    then_do (send_relu_requests E arg node ex) (\<lambda>(ex5, arg1).
      then_do (handle_responses E (written (drop (length (events ex)) (events ex5))) ex5)
        (\<lambda>ex6.
           if m_relu_done_count ex6 = length (m_unknown_relu_idx ex6)
           then (let ex7 = (log_event WaitReluDone ex6)\<lparr>m_relu_done_count := 0\<rparr>
                 in Inr (ex7, arg1, out\<lparr>data := m_relu_data ex7\<rparr>))
           else Inl Blocked))"

text \<open>
  The requests of a client-aided Relu or BoundedRelu in the words of the spec (4.5), to be
  compared with what the handler writes: the chain indices of the operand's slots are matched,
  the ciphertext slots are collected, in ascending order of their index, into batches of up to
  1000 slots, and each batch is serialised as a request of its own. \<open>batches_of\<close> fills the
  batches in order, so that only the last one can hold fewer than 1000 slots.
\<close>

fun batches_of :: "nat \<Rightarrow> 'a list \<Rightarrow> 'a list list" where
  "batches_of n [] = []"
| "batches_of n (x # xs) =
    (if n = 0 then [] else take n (x # xs) # batches_of n (drop n (x # xs)))"

definition relu_requests :: "env \<Rightarrow> Node \<Rightarrow> HETensor \<Rightarrow> TCPMessage list" where
  "relu_requests E node arg =
    (let arg1 = arg\<lparr>data := snd (match_to_smallest_chain_index (data arg))\<rparr>
     in concat (map (\<lambda>b. map (request_message node) (write_to_pb_tensors E (relu_tensor arg1 b)))
                  (batches_of max_relu_message_cnt (filter is_ciphertext (data arg1)))))"

text \<open>
  The slots the client returned for a list of requests, in the order of the requests: the
  session thread reads them from the first wire tensor of every response.
\<close>

definition returned_slots :: "env \<Rightarrow> TCPMessage list \<Rightarrow> HEType list" where
  "returned_slots E requests = concat (map (\<lambda>m. he_tensors (client E m) ! 0) requests)"

text \<open>
  The responses that \<^verbatim>\<open>handle_message\<close> routes to \<^verbatim>\<open>handle_relu_result\<close> and whose
  wire tensor it reads: a response to Relu or BoundedRelu with one wire tensor.
\<close>

definition relu_response :: "TCPMessage \<Rightarrow> bool" where
  "relu_response r \<longleftrightarrow>
     msg_type r = RESPONSE
     \<and> (function_name r = Some ''Relu'' \<or> function_name r = Some ''BoundedRelu'')
     \<and> length (he_tensors r) = 1"

section \<open>Kernel dispatch\<close>

text \<open>
  \<^verbatim>\<open>generate_calls(type, node, out, args)\<close>. The operands \<^verbatim>\<open>args[0]\<close>, \<^verbatim>\<open>args[1]\<close> and the
  output \<^verbatim>\<open>out[0]\<close> are read unchecked in the source; a missing one is \<open>OutOfRange\<close> here.
  The result is the new state of the executable, the operand tensors and the output tensors.
\<close>

definition unary ::
  "HETensor list \<Rightarrow> HETensor list \<Rightarrow> (HETensor \<Rightarrow> HETensor \<Rightarrow> error + 'a) \<Rightarrow> error + 'a" where
  "unary args out f =
    (case args of
       [] \<Rightarrow> Inl OutOfRange
     | a0 # as \<Rightarrow> (case out of [] \<Rightarrow> Inl OutOfRange | o0 # os \<Rightarrow> f a0 o0))"

definition binary ::
  "HETensor list \<Rightarrow> HETensor list \<Rightarrow> (HETensor \<Rightarrow> HETensor \<Rightarrow> HETensor \<Rightarrow> error + 'a)
   \<Rightarrow> error + 'a" where
  "binary args out f =
    (case args of
       a0 # a1 # as \<Rightarrow> (case out of [] \<Rightarrow> Inl OutOfRange | o0 # os \<Rightarrow> f a0 a1 o0)
     | _ \<Rightarrow> Inl OutOfRange)"

text \<open>Writing the slots a kernel produced into \<^verbatim>\<open>out[0]->data()\<close>.\<close>

definition store :: "HETensor list \<Rightarrow> HEType list \<Rightarrow> HETensor list" where
  "store out d = (case out of [] \<Rightarrow> [] | o0 # os \<Rightarrow> o0\<lparr>data := d\<rparr> # os)"

definition finish ::
  "HETensor list \<Rightarrow> HETensor list \<Rightarrow> error + (HESealExecutable \<times> HEType list)
   \<Rightarrow> error + (HESealExecutable \<times> HETensor list \<times> HETensor list)" where
  "finish args out r = then_do r (\<lambda>(ex, d). Inr (ex, args, store out d))"

text \<open>
  The tail shared by AvgPool, Convolution and Dot:
  \<^verbatim>\<open>if (lazy_mod()) mod_reduce_seal(out[0]->data(), ...); rescale_seal(out[0]->data(), ...)\<close>.
\<close>

definition mod_reduce_and_rescale ::
  "env \<Rightarrow> Node \<Rightarrow> HESealExecutable \<times> HEType list \<Rightarrow> error + (HESealExecutable \<times> HEType list)"
where
  "mod_reduce_and_rescale E node r =
    (case r of (ex, d) \<Rightarrow>
      then_do (if lazy_mod ex then run_kernel E mod_reduce_seal node [] d ex else Inr (ex, d))
        (\<lambda>(ex1, d1). run_kernel E rescale_seal node [] d1 ex1))"

text \<open>An offloaded operation replaces the first operand and the first output tensor.\<close>

definition offloaded ::
  "HETensor list \<Rightarrow> HETensor list \<Rightarrow> error + (HESealExecutable \<times> HETensor \<times> HETensor)
   \<Rightarrow> error + (HESealExecutable \<times> HETensor list \<times> HETensor list)" where
  "offloaded args out r =
    then_do r (\<lambda>(ex, a0, o0). Inr (ex, a0 # tl args, o0 # tl out))"

fun generate_calls_switch ::
  "env \<Rightarrow> OP_TYPEID \<Rightarrow> Node \<Rightarrow> HETensor list \<Rightarrow> HETensor list \<Rightarrow> HESealExecutable
   \<Rightarrow> error + (HESealExecutable \<times> HETensor list \<times> HETensor list)" where
  "generate_calls_switch E Add node out args ex =
    binary args out (\<lambda>a0 a1 o0. finish args out
      (if lazy_mod ex
       then then_do (run_kernel E add_seal node [data a0, data a1] (data o0)
                       (set_lazy_mod False ex))
              (\<lambda>(ex1, d). Inr (set_lazy_mod True ex1, d))
       else run_kernel E add_seal node [data a0, data a1] (data o0) ex))"
| "generate_calls_switch E AvgPool node out args ex =
    unary args out (\<lambda>a0 o0. finish args out
      (then_do (run_kernel E avg_pool_seal node [data a0] (data o0) ex)
         (mod_reduce_and_rescale E node)))"
| "generate_calls_switch E BatchNormInference node out args ex =
    NGRAPH_CHECK (length args = 5) ''BatchNormInference has wrong number of arguments''
      (unary args out (\<lambda>a0 o0. finish args out
         (run_kernel E batch_norm_inference_seal node (map data args) (data o0) ex)))"
| "generate_calls_switch E BoundedRelu node out args ex =
    unary args out (\<lambda>a0 o0.
      (let output_size = batched_element_count a0 in
       if enable_client ex then offloaded args out (handle_server_relu_op E a0 o0 node ex)
       else NGRAPH_CHECK (output_size = length (data a0))
              ''output size doesn't match number of elements''
              (finish args out (run_kernel E bounded_relu_seal node [data a0] (data o0) ex))))"
| "generate_calls_switch E Broadcast node out args ex =
    unary args out (\<lambda>a0 o0. finish args out
      (run_kernel E broadcast_seal node [data a0] (data o0) ex))"
| "generate_calls_switch E Concat node out args ex =
    (case out of
       [] \<Rightarrow> Inl OutOfRange
     | o0 # os \<Rightarrow> finish args out (run_kernel E concat_seal node (map data args) (data o0) ex))"
| "generate_calls_switch E Constant node out args ex =
    (case out of
       [] \<Rightarrow> Inl OutOfRange
     | o0 # os \<Rightarrow> finish args out (run_kernel E constant_seal node [] (data o0) ex))"
| "generate_calls_switch E Convolution node out args ex =
    binary args out (\<lambda>a0 a1 o0. finish args out
      (then_do (run_kernel E convolution_seal node [data a0, data a1] (data o0) ex)
         (mod_reduce_and_rescale E node)))"
| "generate_calls_switch E Divide node out args ex =
    binary args out (\<lambda>a0 a1 o0. finish args out
      (run_kernel E divide_seal node [data a0, data a1] (data o0) ex))"
| "generate_calls_switch E Dot node out args ex =
    binary args out (\<lambda>a0 a1 o0. finish args out
      (then_do (run_kernel E dot_seal node [data a0, data a1] (data o0) ex)
         (mod_reduce_and_rescale E node)))"
| "generate_calls_switch E Exp node out args ex =
    NGRAPH_CHECK (\<not> enable_client ex) ''Exp not implemented for client-aided model''
      (unary args out (\<lambda>a0 o0. finish args out
         (run_kernel E exp_seal node [data a0] (data o0) ex)))"
| "generate_calls_switch E Max_op node out args ex =
    unary args out (\<lambda>a0 o0.
      NGRAPH_CHECK (\<not> is_packed a0 \<or> 0 \<notin> set (axes node))
        ''Max reduction axes cannot contain 0 for packed tensors''
        (NGRAPH_CHECK (\<not> enable_client ex) ''Max not implemented for client-aided model''
           (NGRAPH_CHECK (batched_element_count a0 = length (data a0))
              ''output size doesn't match number of elements''
              (finish args out (run_kernel E max_seal node [data a0] (data o0) ex)))))"
| "generate_calls_switch E MaxPool node out args ex =
    (if enable_client ex
     then unary args out (\<lambda>a0 o0.
            offloaded args out (handle_server_max_pool_op E a0 o0 node ex))
     else unary args out (\<lambda>a0 o0.
            NGRAPH_CHECK (batched_element_count a0 = length (data a0))
              ''output size doesn't match number of elements''
              (finish args out (run_kernel E max_pool_seal node [data a0] (data o0) ex))))"
| "generate_calls_switch E Minimum node out args ex =
    binary args out (\<lambda>a0 a1 o0. finish args out
      (run_kernel E minimum_seal node [data a0, data a1] (data o0) ex))"
| "generate_calls_switch E Multiply node out args ex =
    binary args out (\<lambda>a0 a1 o0. finish args out
      (then_do
         (if lazy_mod ex
          then then_do (run_kernel E multiply_seal node [data a0, data a1] (data o0)
                          (set_lazy_mod False ex))
                 (\<lambda>(ex1, d). Inr (set_lazy_mod True ex1, d))
          else run_kernel E multiply_seal node [data a0, data a1] (data o0) ex)
         (\<lambda>(ex2, d2). run_kernel E rescale_seal node [] d2 ex2)))"
| "generate_calls_switch E Negative node out args ex =
    unary args out (\<lambda>a0 o0. finish args out
      (run_kernel E negate_seal node [data a0] (data o0) ex))"
| "generate_calls_switch E Pad node out args ex =
    binary args out (\<lambda>a0 a1 o0. finish args out
      (run_kernel E pad_seal node [data a0, data a1] (data o0) ex))"
| "generate_calls_switch E Parameter node out args ex = Inr (ex, args, out)"
| "generate_calls_switch E Power node out args ex =
    binary args out (\<lambda>a0 a1 o0. finish args out
      (run_kernel E power_seal node [data a0, data a1] (data o0) ex))"
| "generate_calls_switch E Relu node out args ex =
    (if enable_client ex
     then unary args out (\<lambda>a0 o0. offloaded args out (handle_server_relu_op E a0 o0 node ex))
     else unary args out (\<lambda>a0 o0.
            NGRAPH_CHECK (batched_element_count a0 = length (data a0))
              ''output size doesn't match number of elements''
              (finish args out (run_kernel E relu_seal node [data a0] (data o0) ex))))"
| "generate_calls_switch E Reshape node out args ex =
    unary args out (\<lambda>a0 o0. finish args out
      (run_kernel E reshape_seal node [data a0] (data o0) ex))"
| "generate_calls_switch E Result node out args ex =
    unary args out (\<lambda>a0 o0. finish args out
      (run_kernel E result_seal node [data a0] (data o0) ex))"
| "generate_calls_switch E Reverse node out args ex =
    unary args out (\<lambda>a0 o0. finish args out
      (run_kernel E reverse_seal node [data a0] (data o0) ex))"
| "generate_calls_switch E Slice node out args ex =
    unary args out (\<lambda>a0 o0.
      (case upper_bounds node of
         [] \<Rightarrow> finish args out (run_kernel E slice_seal node [data a0] (data o0) ex)
       | u # us \<Rightarrow>
           (case packed_shape a0 of
              [] \<Rightarrow> Inl OutOfRange
            | s0 # ss \<Rightarrow>
                if s0 < u
                then NGRAPH_CHECK (u = batch_size o0)
                       ''Slice upper bound shape is not compatible with tensor output shape''
                       (finish args out
                          (run_kernel E slice_seal (node\<lparr>upper_bounds := 1 # us\<rparr>)
                             [data a0] (data o0) ex))
                else finish args out (run_kernel E slice_seal node [data a0] (data o0) ex))))"
| "generate_calls_switch E Softmax node out args ex =
    unary args out (\<lambda>a0 o0.
      NGRAPH_CHECK (\<not> is_packed a0 \<or> 0 \<notin> set (axes node))
        ''Softmax axes cannot contain 0 for packed tensors''
        (finish args out (run_kernel E softmax_seal node [data a0] (data o0) ex)))"
| "generate_calls_switch E Subtract node out args ex =
    binary args out (\<lambda>a0 a1 o0. finish args out
      (run_kernel E subtract_seal node [data a0, data a1] (data o0) ex))"
| "generate_calls_switch E Sum node out args ex =
    unary args out (\<lambda>a0 o0. finish args out
      (run_kernel E sum_seal node [data a0] (data o0) ex))"
| "generate_calls_switch E (Unsupported n) node out args ex =
    Inl (unsupported_op (''Unsupported op '' @ [CHR 0x27] @ description node @ [CHR 0x27]))"

definition generate_calls ::
  "env \<Rightarrow> Node \<Rightarrow> HETensor list \<Rightarrow> HETensor list \<Rightarrow> HESealExecutable
   \<Rightarrow> error + (HESealExecutable \<times> HETensor list \<times> HETensor list)" where
  "generate_calls E node out args ex =
    generate_calls_switch E (get_typeid (description node)) node out args ex"

section \<open>Calls in client mode\<close>

definition check_client_supports_function :: "HESealExecutable \<Rightarrow> error + unit" where
  "check_client_supports_function ex =
    (let from_client_count = length (filter from_client (m_parameters ex)) in
     NGRAPH_CHECK (length (m_results ex) = 1) ''HESealExecutable only supports output size 1''
       (NGRAPH_CHECK (0 < from_client_count) ''Expected > 0 parameters from client''
          (Inr ())))"

text \<open>
  \<^verbatim>\<open>server_setup\<close>: the check, the start of the server, and, once the session has started,
  the message with the encryption parameters. The client of the environment is taken to
  connect, so the wait for the session returns.
\<close>

definition server_setup :: "HESealExecutable \<Rightarrow> error + HESealExecutable" where
  "server_setup ex =
    (if \<not> m_server_setup ex
     then then_do (check_client_supports_function ex)
            (\<lambda>u. Inr ((write_message
                          \<lparr>msg_type = RESPONSE, function_name = None, he_tensors = []\<rparr> ex)
                       \<lparr>m_server_setup := True\<rparr>))
     else Inr ex)"

definition send_client_results :: "env \<Rightarrow> HESealExecutable \<Rightarrow> error + HESealExecutable" where
  "send_client_results E ex =
    NGRAPH_CHECK (length (m_client_outputs ex) = 1)
      ''HESealExecutable only supports output size 1''
      (let pb_tensors = write_to_pb_tensors E (m_client_outputs ex ! 0)
       in Inr (fold (\<lambda>pb_tensor. write_message
                        \<lparr>msg_type = RESPONSE, function_name = None, he_tensors = [pb_tensor]\<rparr>)
                 pb_tensors ex))"

text \<open>
  \<^verbatim>\<open>call\<close>, as far as the client protocol frames it: validation of the arguments, server
  setup in client mode, the evaluation of the graph, and the sending of the results in client
  mode. The evaluation (waiting for the client's inputs, binding the parameters, the loop
  over the ordered nodes with \<open>generate_calls\<close> and the freeing of tensors) and the
  validation are fields of the environment.
\<close>

definition call :: "env \<Rightarrow> HESealExecutable \<Rightarrow> error + HESealExecutable" where
  "call E ex =
    then_do (validate E ex) (\<lambda>u.
      then_do (if enable_client ex then server_setup ex else Inr ex) (\<lambda>ex1.
        then_do (execute_graph E ex1) (\<lambda>ex2.
          if enable_client ex2 then send_client_results E ex2 else Inr ex2)))"

section \<open>Requests outstanding\<close>


section \<open>Sample inputs\<close>

text \<open>
  Concrete inputs on which the definitions above are evaluated: slots, tensors, nodes, a state
  of the executable, and an environment whose kernels hand back the output slots they were
  given, whose tensors travel in one wire tensor, and whose client answers a MaxPool request
  with the first slot of the request and any other request with the slots it received.
\<close>

definition sample_cipher :: "nat \<Rightarrow> nat \<Rightarrow> HEType" where
  "sample_cipher i v =
    \<lparr>he_value = Cipher \<lparr>chain_index = of_nat i, scale = 1, payload = v\<rparr>,
     complex_packing = False, plaintext_packing = False, he_batch_size = 1\<rparr>"

definition sample_plain :: "real list \<Rightarrow> HEType" where
  "sample_plain p =
    \<lparr>he_value = Plain p, complex_packing = False, plaintext_packing = False,
     he_batch_size = 1\<rparr>"

definition sample_tensor :: "HEType list \<Rightarrow> HETensor" where
  "sample_tensor d =
    \<lparr>data = d, shape = [length d], is_packed = False, packed_shape = [length d],
     batch_size = 1, batched_element_count = length d\<rparr>"

definition sample_node :: "string \<Rightarrow> Node" where
  "sample_node n = \<lparr>description = n, axes = [], upper_bounds = [], alpha = 6\<rparr>"

definition sample_client :: "TCPMessage \<Rightarrow> TCPMessage" where
  "sample_client request =
    \<lparr>msg_type = RESPONSE, function_name = function_name request,
     he_tensors = (if function_name request = Some ''MaxPool''
                   then map (take 1) (he_tensors request) else he_tensors request)\<rparr>"

definition sample_env :: env where
  "sample_env =
    \<lparr>kernels = (\<lambda>k b n operands d. Inr d),
     write_to_pb_tensors = (\<lambda>t. [data t]),
     max_pool_seal_max_list = (\<lambda>n. [[0, 1], [2, 3]]),
     scalar_relu_seal = map (\<lambda>x. max x 0),
     scalar_bounded_relu_seal = (\<lambda>p a. map (\<lambda>x. min (max x 0) a) p),
     client = sample_client,
     handle_client_ciphers = (\<lambda>ex m. Inr ()),
     validate = (\<lambda>ex. Inr ()),
     execute_graph = (\<lambda>ex. Inr (ex\<lparr>m_client_outputs := [sample_tensor []]\<rparr>))\<rparr>"

definition sample_executable :: "bool \<Rightarrow> bool \<Rightarrow> HESealExecutable" where
  "sample_executable lazy with_client =
    \<lparr>m_he_seal_backend = \<lparr>m_lazy_mod = lazy, m_enable_client = with_client\<rparr>,
     m_parameters = [\<lparr>param_name = ''x'', from_client = True\<rparr>],
     m_results = [''Result_0''],
     m_server_setup = False,
     m_client_outputs = [],
     m_relu_data = [],
     m_unknown_relu_idx = [],
     m_relu_done_count = 0,
     m_max_pool_data = [],
     m_max_pool_done = False,
     events = []\<rparr>"

text \<open>The kernel that \<open>generate_calls\<close> invokes for a node that multiplies.\<close>

definition multiplicative_kernel :: "OP_TYPEID \<Rightarrow> kernel" where
  "multiplicative_kernel t =
    (if t = Dot then dot_seal else if t = Convolution then convolution_seal
     else if t = AvgPool then avg_pool_seal else multiply_seal)"

section \<open>Facts about the dispatch helpers\<close>

lemma run_kernel_Inr:
  "run_kernel E k node ops d ex = Inr (ex1, d1) \<longleftrightarrow>
     kernels E k (m_he_seal_backend ex) node ops d = Inr d1 \<and>
     ex1 = log_event (KernelCall k (lazy_mod ex)) ex"
  by (auto simp: run_kernel_def then_do_def split: sum.splits)

lemma then_do_Inr: "then_do m f = Inr y \<longleftrightarrow> (\<exists>x. m = Inr x \<and> f x = Inr y)"
  by (cases m) (simp_all add: then_do_def)

lemma NGRAPH_CHECK_Inr: "NGRAPH_CHECK c msg k = Inr y \<longleftrightarrow> c \<and> k = Inr y"
  by (simp add: NGRAPH_CHECK_def)

lemma lazy_mod_log_event [simp]: "lazy_mod (log_event e ex) = lazy_mod ex"
  by (simp add: lazy_mod_def log_event_def)

lemma lazy_mod_set_lazy_mod [simp]: "lazy_mod (set_lazy_mod b ex) = b"
  by (simp add: lazy_mod_def set_lazy_mod_def)

lemma events_set_lazy_mod [simp]: "events (set_lazy_mod b ex) = events ex"
  by (simp add: set_lazy_mod_def)

lemma events_log_event [simp]: "events (log_event e ex) = events ex @ [e]"
  by (simp add: log_event_def)

lemma backend_log_event [simp]: "m_he_seal_backend (log_event e ex) = m_he_seal_backend ex"
  by (simp add: log_event_def)

lemma backend_set_lazy_mod [simp]:
  "m_he_seal_backend (set_lazy_mod b ex) = (m_he_seal_backend ex)\<lparr>m_lazy_mod := b\<rparr>"
  by (simp add: set_lazy_mod_def)

lemma binary_Inr:
  "binary args out f = Inr y \<longleftrightarrow>
    (\<exists>a0 a1 as o0 os. args = a0 # a1 # as \<and> out = o0 # os \<and> f a0 a1 o0 = Inr y)"
  by (auto simp: binary_def split: list.splits)

lemma unary_Inr:
  "unary args out f = Inr y \<longleftrightarrow>
    (\<exists>a0 as o0 os. args = a0 # as \<and> out = o0 # os \<and> f a0 o0 = Inr y)"
  by (auto simp: unary_def split: list.splits)

lemma finish_Inr:
  "finish args out r = Inr y \<longleftrightarrow> (\<exists>ex d. r = Inr (ex, d) \<and> y = (ex, args, store out d))"
  by (auto simp: finish_def then_do_Inr)

lemma backend_lazy_mod_False:
  "\<not> lazy_mod ex \<Longrightarrow> (m_he_seal_backend ex)\<lparr>m_lazy_mod := False\<rparr> = m_he_seal_backend ex"
  by (simp add: lazy_mod_def)

lemma guarded_kernel_Inr:
  assumes "(if lazy_mod ex
            then then_do (run_kernel E k node ops d0 (set_lazy_mod False ex))
                   (\<lambda>(ex1, d). Inr (set_lazy_mod True ex1, d))
            else run_kernel E k node ops d0 ex) = Inr (ex2, d)"
  shows "kernels E k ((m_he_seal_backend ex)\<lparr>m_lazy_mod := False\<rparr>) node ops d0 = Inr d
         \<and> lazy_mod ex2 = lazy_mod ex
         \<and> events ex2 = events ex @ [KernelCall k False]"
proof (cases "lazy_mod ex")
  case True
  with assms obtain ex1 where
    "run_kernel E k node ops d0 (set_lazy_mod False ex) = Inr (ex1, d)"
    "ex2 = set_lazy_mod True ex1"
    by (auto simp: then_do_Inr)
  with True show ?thesis by (simp add: run_kernel_Inr)
next
  case False
  with assms have "run_kernel E k node ops d0 ex = Inr (ex2, d)" by simp
  with False show ?thesis by (simp add: run_kernel_Inr backend_lazy_mod_False)
qed

section \<open>Lazy modulus around single additions and multiplications\<close>

text \<open>
  Claim C7. When the executor dispatches an Add or a Multiply node and the dispatch completes,
  the kernel (\<^verbatim>\<open>add_seal\<close>, \<^verbatim>\<open>multiply_seal\<close>) has been invoked on a backend whose
  \<^verbatim>\<open>lazy_mod\<close> flag is cleared: when the flag was set the executor clears it for the call
  and sets it again afterwards, and when it was not set the backend is handed on unchanged.
  In both cases the flag after the dispatch equals the flag before it. The trace records the
  kernel call with the flag value \<open>False\<close>.
\<close>

theorem add_multiply_run_without_lazy_mod:
  assumes op: "get_typeid (description node) = Add \<or> get_typeid (description node) = Multiply"
    and run: "generate_calls E node out args ex = Inr (ex', args', out')"
  shows "lazy_mod ex' = lazy_mod ex \<and>
    (\<exists>a0 a1 as o0 os d rest.
       args = a0 # a1 # as \<and> out = o0 # os \<and>
       kernels E (if get_typeid (description node) = Add then add_seal else multiply_seal)
         ((m_he_seal_backend ex)\<lparr>m_lazy_mod := False\<rparr>) node [data a0, data a1] (data o0) = Inr d \<and>
       events ex' = events ex @
         KernelCall (if get_typeid (description node) = Add then add_seal else multiply_seal) False
           # rest)"
  using op
proof
  assume a: "get_typeid (description node) = Add"
  from run obtain a0 a1 as o0 os d where
    shape: "args = a0 # a1 # as" "out = o0 # os" and
    k: "(if lazy_mod ex
         then then_do (run_kernel E add_seal node [data a0, data a1] (data o0)
                         (set_lazy_mod False ex))
                (\<lambda>(ex1, d). Inr (set_lazy_mod True ex1, d))
         else run_kernel E add_seal node [data a0, data a1] (data o0) ex) = Inr (ex', d)"
    unfolding generate_calls_def a generate_calls_switch.simps binary_Inr finish_Inr
    by auto
  from guarded_kernel_Inr [OF k] shape a show ?thesis by auto
next
  assume a: "get_typeid (description node) = Multiply"
  from run obtain a0 a1 as o0 os ex2 d2 d where
    shape: "args = a0 # a1 # as" "out = o0 # os" and
    k: "(if lazy_mod ex
         then then_do (run_kernel E multiply_seal node [data a0, data a1] (data o0)
                         (set_lazy_mod False ex))
                (\<lambda>(ex1, d). Inr (set_lazy_mod True ex1, d))
         else run_kernel E multiply_seal node [data a0, data a1] (data o0) ex) = Inr (ex2, d2)"
    and r: "run_kernel E rescale_seal node [] d2 ex2 = Inr (ex', d)"
    unfolding generate_calls_def a generate_calls_switch.simps binary_Inr finish_Inr then_do_Inr
    by auto
  from guarded_kernel_Inr [OF k] r shape a show ?thesis
    by (auto simp: run_kernel_Inr)
qed


lemma get_typeid_Multiply: "get_typeid ''Multiply'' = Multiply"
  by (simp add: get_typeid_def supported_ids_def)

theorem add_multiply_run_without_lazy_mod_witness:
  "(get_typeid (description (sample_node ''Multiply'')) = Add
     \<or> get_typeid (description (sample_node ''Multiply'')) = Multiply)
   \<and> (\<exists>ex' args' out'.
        generate_calls sample_env (sample_node ''Multiply'') [sample_tensor []]
          [sample_tensor [], sample_tensor []] (sample_executable True False)
        = Inr (ex', args', out')
        \<and> lazy_mod ex' = lazy_mod (sample_executable True False)
        \<and> lazy_mod (sample_executable True False))"
proof -
  have t: "get_typeid (description (sample_node ''Multiply'')) = Add
     \<or> get_typeid (description (sample_node ''Multiply'')) = Multiply"
    by (simp add: sample_node_def get_typeid_Multiply)
  have "\<exists>r. generate_calls sample_env (sample_node ''Multiply'') [sample_tensor []]
          [sample_tensor [], sample_tensor []] (sample_executable True False) = Inr r"
    by (simp add: generate_calls_def sample_node_def get_typeid_Multiply binary_def finish_def
        then_do_def run_kernel_def sample_env_def lazy_mod_def sample_executable_def
        set_lazy_mod_def)
  then obtain ex' args' out' where run:
    "generate_calls sample_env (sample_node ''Multiply'') [sample_tensor []]
          [sample_tensor [], sample_tensor []] (sample_executable True False)
     = Inr (ex', args', out')"
    by (metis prod_cases3)
  have "lazy_mod (sample_executable True False)"
    by (simp add: lazy_mod_def sample_executable_def)
  with t run add_multiply_run_without_lazy_mod [OF t run] show ?thesis by blast
qed

section \<open>Rescaling after multiplicative kernels\<close>

lemma mod_reduce_and_rescale_Inr:
  assumes "mod_reduce_and_rescale E node (ex1, d1) = Inr (ex', d3)"
  shows "\<exists>d2. (if lazy_mod ex1 then kernels E mod_reduce_seal (m_he_seal_backend ex1) node [] d1 = Inr d2
               else d2 = d1)
           \<and> kernels E rescale_seal (m_he_seal_backend ex1) node [] d2 = Inr d3
           \<and> events ex' = events ex1 @ (if lazy_mod ex1 then [KernelCall mod_reduce_seal True] else [])
                @ [KernelCall rescale_seal (lazy_mod ex1)]
           \<and> lazy_mod ex' = lazy_mod ex1"
proof (cases "lazy_mod ex1")
  case True
  with assms obtain ex2 d2 where
    "run_kernel E mod_reduce_seal node [] d1 ex1 = Inr (ex2, d2)"
    "run_kernel E rescale_seal node [] d2 ex2 = Inr (ex', d3)"
    by (auto simp: mod_reduce_and_rescale_def then_do_Inr)
  with True show ?thesis by (auto simp: run_kernel_Inr)
next
  case False
  with assms have "run_kernel E rescale_seal node [] d1 ex1 = Inr (ex', d3)"
    by (auto simp: mod_reduce_and_rescale_def then_do_Inr)
  with False show ?thesis by (auto simp: run_kernel_Inr)
qed

lemma multiplicative_tail:
  assumes k: "run_kernel E k node ops d0 ex = Inr (ex1, d1)"
    and r: "mod_reduce_and_rescale E node (ex1, d1) = Inr (ex', d3)"
  shows "\<exists>d1 d2.
      kernels E k (m_he_seal_backend ex) node ops d0 = Inr d1
    \<and> (if lazy_mod ex then kernels E mod_reduce_seal (m_he_seal_backend ex) node [] d1 = Inr d2
       else d2 = d1)
    \<and> kernels E rescale_seal (m_he_seal_backend ex) node [] d2 = Inr d3
    \<and> events ex' = events ex @ [KernelCall k (lazy_mod ex)]
         @ (if lazy_mod ex then [KernelCall mod_reduce_seal True] else [])
         @ [KernelCall rescale_seal (lazy_mod ex)]
    \<and> lazy_mod ex' = lazy_mod ex"
  using mod_reduce_and_rescale_Inr [OF r] k
  by (auto simp: run_kernel_Inr)

text \<open>
  Claim C3. For a Dot, Convolution or AvgPool node whose dispatch completes, the executor
  calls the kernel, then, when \<^verbatim>\<open>lazy_mod\<close> is set, \<^verbatim>\<open>mod_reduce_seal\<close> on the whole output
  vector \<^verbatim>\<open>out[0]->data()\<close>, then \<^verbatim>\<open>rescale_seal\<close> on the whole output vector, and the
  output tensor holds what \<^verbatim>\<open>rescale_seal\<close> returned. For Multiply the kernel runs with the
  flag cleared, no \<^verbatim>\<open>mod_reduce_seal\<close> is called, and \<^verbatim>\<open>rescale_seal\<close> is applied to the
  whole output vector in the same way.
\<close>

theorem rescale_after_multiplicative_kernel:
  assumes t: "get_typeid (description node) = t"
    and op: "t = Dot \<or> t = Convolution \<or> t = AvgPool \<or> t = Multiply"
    and run: "generate_calls E node out args ex = Inr (ex', args', out')"
  shows "\<exists>o0 os d1 d2 d3.
      out = o0 # os \<and> out' = o0\<lparr>data := d3\<rparr> # os
    \<and> kernels E (multiplicative_kernel t)
         ((m_he_seal_backend ex)\<lparr>m_lazy_mod := lazy_mod ex \<and> t \<noteq> Multiply\<rparr>) node
         (if t = AvgPool then map data (take 1 args) else map data (take 2 args)) (data o0)
       = Inr d1
    \<and> (if lazy_mod ex \<and> t \<noteq> Multiply
       then kernels E mod_reduce_seal (m_he_seal_backend ex) node [] d1 = Inr d2
       else d2 = d1)
    \<and> kernels E rescale_seal (m_he_seal_backend ex) node [] d2 = Inr d3
    \<and> events ex' = events ex
         @ [KernelCall (multiplicative_kernel t) (lazy_mod ex \<and> t \<noteq> Multiply)]
         @ (if lazy_mod ex \<and> t \<noteq> Multiply then [KernelCall mod_reduce_seal True] else [])
         @ [KernelCall rescale_seal (lazy_mod ex)]"
proof -
  have same: "(m_he_seal_backend ex)\<lparr>m_lazy_mod := lazy_mod ex\<rparr> = m_he_seal_backend ex"
    by (simp add: lazy_mod_def)
  from op consider "t = Dot" | "t = Convolution" | "t = AvgPool" | "t = Multiply" by blast
  then show ?thesis
  proof cases
    case 1
    from run obtain a0 a1 as o0 os ex1 d1 d3 where
      shape: "args = a0 # a1 # as" "out = o0 # os" "out' = store out d3" and
      k: "run_kernel E dot_seal node [data a0, data a1] (data o0) ex = Inr (ex1, d1)" and
      r: "mod_reduce_and_rescale E node (ex1, d1) = Inr (ex', d3)"
      unfolding generate_calls_def t 1 generate_calls_switch.simps binary_Inr finish_Inr
        then_do_Inr
      by auto
    from multiplicative_tail [OF k r] shape 1 show ?thesis
      by (auto simp: multiplicative_kernel_def store_def same)
  next
    case 2
    from run obtain a0 a1 as o0 os ex1 d1 d3 where
      shape: "args = a0 # a1 # as" "out = o0 # os" "out' = store out d3" and
      k: "run_kernel E convolution_seal node [data a0, data a1] (data o0) ex = Inr (ex1, d1)" and
      r: "mod_reduce_and_rescale E node (ex1, d1) = Inr (ex', d3)"
      unfolding generate_calls_def t 2 generate_calls_switch.simps binary_Inr finish_Inr
        then_do_Inr
      by auto
    from multiplicative_tail [OF k r] shape 2 show ?thesis
      by (auto simp: multiplicative_kernel_def store_def same)
  next
    case 3
    from run obtain a0 as o0 os ex1 d1 d3 where
      shape: "args = a0 # as" "out = o0 # os" "out' = store out d3" and
      k: "run_kernel E avg_pool_seal node [data a0] (data o0) ex = Inr (ex1, d1)" and
      r: "mod_reduce_and_rescale E node (ex1, d1) = Inr (ex', d3)"
      unfolding generate_calls_def t 3 generate_calls_switch.simps unary_Inr finish_Inr
        then_do_Inr
      by auto
    from multiplicative_tail [OF k r] shape 3 show ?thesis
      by (auto simp: multiplicative_kernel_def store_def same)
  next
    case 4
    from run obtain a0 a1 as o0 os ex2 d2 d3 where
      shape: "args = a0 # a1 # as" "out = o0 # os" "out' = store out d3" and
      k: "(if lazy_mod ex
           then then_do (run_kernel E multiply_seal node [data a0, data a1] (data o0)
                           (set_lazy_mod False ex))
                  (\<lambda>(ex1, d). Inr (set_lazy_mod True ex1, d))
           else run_kernel E multiply_seal node [data a0, data a1] (data o0) ex)
          = Inr (ex2, d2)"
      and r: "run_kernel E rescale_seal node [] d2 ex2 = Inr (ex', d3)"
      unfolding generate_calls_def t 4 generate_calls_switch.simps binary_Inr finish_Inr
        then_do_Inr
      by auto
    have b: "m_he_seal_backend ex2 = m_he_seal_backend ex"
      using k by (auto simp: then_do_Inr run_kernel_Inr lazy_mod_def split: if_splits)
    from guarded_kernel_Inr [OF k] r shape 4 b show ?thesis
      by (auto simp: multiplicative_kernel_def store_def run_kernel_Inr)
  qed
qed


lemma get_typeid_Dot: "get_typeid ''Dot'' = Dot"
  by (simp add: get_typeid_def supported_ids_def)

theorem rescale_after_multiplicative_kernel_witness:
  "get_typeid (description (sample_node ''Dot'')) = Dot
   \<and> (\<exists>ex' args' out'.
        generate_calls sample_env (sample_node ''Dot'') [sample_tensor [sample_cipher 2 7]]
          [sample_tensor [], sample_tensor []] (sample_executable True False)
        = Inr (ex', args', out')
        \<and> events ex' = [KernelCall dot_seal True, KernelCall mod_reduce_seal True,
                          KernelCall rescale_seal True])"
proof -
  have t: "get_typeid (description (sample_node ''Dot'')) = Dot"
    by (simp add: sample_node_def get_typeid_Dot)
  have op: "Dot = Dot \<or> Dot = Convolution \<or> Dot = AvgPool \<or> Dot = Multiply"
    by simp
  have "\<exists>r. generate_calls sample_env (sample_node ''Dot'') [sample_tensor [sample_cipher 2 7]]
          [sample_tensor [], sample_tensor []] (sample_executable True False) = Inr r"
    by (simp add: generate_calls_def sample_node_def get_typeid_Dot binary_def finish_def
        then_do_def run_kernel_def sample_env_def lazy_mod_def sample_executable_def
        mod_reduce_and_rescale_def log_event_def)
  then obtain ex' args' out' where run:
    "generate_calls sample_env (sample_node ''Dot'') [sample_tensor [sample_cipher 2 7]]
          [sample_tensor [], sample_tensor []] (sample_executable True False)
     = Inr (ex', args', out')"
    by (metis prod_cases3)
  have l: "lazy_mod (sample_executable True False)" "events (sample_executable True False) = []"
    by (simp_all add: lazy_mod_def sample_executable_def)
  from rescale_after_multiplicative_kernel [OF t op run] l
  have "events ex' = [KernelCall dot_seal True, KernelCall mod_reduce_seal True,
                          KernelCall rescale_seal True]"
    by (auto simp: multiplicative_kernel_def)
  with t run show ?thesis by blast
qed

section \<open>Operators outside the supported set\<close>

text \<open>
  Every identifier \<open>get_typeid\<close> returns is one of the 27 with a case of their own or one of
  the common group, and dispatch on one of the common group raises \<^verbatim>\<open>unsupported_op\<close>
  without calling a kernel or touching the output. \<^verbatim>\<open>Xor\<close> is one of the group.
\<close>

lemma get_typeid_cases:
  "get_typeid n \<in> snd ` set supported_ids \<or> (\<exists>m \<in> set unsupported_ids. get_typeid n = Unsupported m)"
proof (cases "map_of supported_ids n")
  case None
  then show ?thesis
    by (auto simp: get_typeid_def dest: in_set_butlastD) (simp add: unsupported_ids_def)
next
  case (Some t)
  then have "(n, t) \<in> set supported_ids" by (rule map_of_SomeD)
  with Some show ?thesis by (force simp: get_typeid_def)
qed

lemma unsupported_id_raises:
  "get_typeid (description node) = Unsupported m \<Longrightarrow>
   generate_calls E node out args ex
     = Inl (unsupported_op (''Unsupported op '' @ [CHR 0x27] @ description node @ [CHR 0x27]))"
  by (simp add: generate_calls_def)

lemma get_typeid_Xor: "get_typeid ''Xor'' = Unsupported ''Xor''"
  by (simp add: get_typeid_def supported_ids_def unsupported_ids_def)

section \<open>Calls in client mode: what server setup and result sending require\<close>

lemma check_client_supports_function_Inr:
  "check_client_supports_function ex = Inr u \<longleftrightarrow>
     length (m_results ex) = 1 \<and> (\<exists>p \<in> set (m_parameters ex). from_client p)"
  by (auto simp: check_client_supports_function_def NGRAPH_CHECK_def Let_def filter_empty_conv)

text \<open>
  Claim C10. Server setup, when the server is not yet set up, raises an error exactly when the
  number of result nodes differs from 1 or no parameter is annotated as coming from the
  client; sending the results to the client raises an error exactly when the number of client
  output tensors differs from 1; and a call in client mode on an executable whose server is
  not yet set up succeeds only if the function has exactly one result and at least one
  parameter from the client.
\<close>

theorem client_mode_needs_one_result_and_a_client_parameter:
  "(\<not> m_server_setup ex \<longrightarrow>
      ((\<exists>e. server_setup ex = Inl e) \<longleftrightarrow>
         length (m_results ex) \<noteq> 1 \<or> length (filter from_client (m_parameters ex)) = 0))
   \<and> ((\<exists>e. send_client_results E ex = Inl e) \<longleftrightarrow> length (m_client_outputs ex) \<noteq> 1)
   \<and> (enable_client ex \<and> \<not> m_server_setup ex \<and> call E ex = Inr ex' \<longrightarrow>
        length (m_results ex) = 1 \<and> 0 < length (filter from_client (m_parameters ex)))"
proof (intro conjI impI)
  assume "\<not> m_server_setup ex"
  then show "(\<exists>e. server_setup ex = Inl e) \<longleftrightarrow>
         length (m_results ex) \<noteq> 1 \<or> length (filter from_client (m_parameters ex)) = 0"
    by (auto simp: server_setup_def check_client_supports_function_def NGRAPH_CHECK_def
        then_do_def Let_def)
next
  show "(\<exists>e. send_client_results E ex = Inl e) \<longleftrightarrow> length (m_client_outputs ex) \<noteq> 1"
    by (auto simp: send_client_results_def NGRAPH_CHECK_def Let_def)
next
  assume a: "enable_client ex \<and> \<not> m_server_setup ex \<and> call E ex = Inr ex'"
  then obtain ex1 where "server_setup ex = Inr ex1"
    by (auto simp: call_def then_do_def split: sum.splits)
  with a have "check_client_supports_function ex = Inr ()"
    by (auto simp: server_setup_def then_do_def split: sum.splits)
  then show "length (m_results ex) = 1"
    and "0 < length (filter from_client (m_parameters ex))"
    by (auto simp: check_client_supports_function_def NGRAPH_CHECK_def Let_def split: if_splits)
qed

theorem client_mode_needs_one_result_and_a_client_parameter_witness:
  "\<not> m_server_setup (sample_executable False True)
   \<and> enable_client (sample_executable False True)
   \<and> (\<exists>ex'. call sample_env (sample_executable False True) = Inr ex')
   \<and> length (m_results (sample_executable False True)) = 1
   \<and> 0 < length (filter from_client (m_parameters (sample_executable False True)))
   \<and> (\<exists>e. server_setup ((sample_executable False True)\<lparr>m_results := []\<rparr>) = Inl e)"
proof -
  have s: "\<not> m_server_setup (sample_executable False True)"
    "enable_client (sample_executable False True)"
    by (simp_all add: sample_executable_def enable_client_def)
  have s': "\<not> m_server_setup ((sample_executable False True)\<lparr>m_results := []\<rparr>)"
    by (simp add: sample_executable_def)
  have "\<exists>ex'. call sample_env (sample_executable False True) = Inr ex'"
    by (simp add: call_def sample_env_def sample_executable_def then_do_def enable_client_def
        server_setup_def check_client_supports_function_def NGRAPH_CHECK_def
        send_client_results_def write_message_def log_event_def sample_tensor_def)
  then obtain ex' where c: "call sample_env (sample_executable False True) = Inr ex'" ..
  from client_mode_needs_one_result_and_a_client_parameter
    [of "sample_executable False True" sample_env ex'] s c
  have 1: "length (m_results (sample_executable False True)) = 1"
    "0 < length (filter from_client (m_parameters (sample_executable False True)))"
    by blast+
  from client_mode_needs_one_result_and_a_client_parameter
    [of "(sample_executable False True)\<lparr>m_results := []\<rparr>" sample_env ex'] s'
  have 2: "\<exists>e. server_setup ((sample_executable False True)\<lparr>m_results := []\<rparr>) = Inl e"
    by simp
  from s c 1 2 show ?thesis by blast
qed


section \<open>Matching a vector of slots to its smallest chain index\<close>

lemma set_chain_indices:
  "set (chain_indices slots) = {chain_index c |c h. h \<in> set slots \<and> he_value h = Cipher c}"
  by (induction slots) (auto split: he_value.splits)

lemma chain_indices_empty:
  "chain_indices slots = [] \<longleftrightarrow> (\<forall>h \<in> set slots. is_plaintext h)"
  by (induction slots) (auto simp: is_plaintext_def split: he_value.splits)

lemma smallest_chain_index_Min:
  "smallest_chain_index slots =
    (if chain_indices slots = [] then SIZE_MAX else Min (set (chain_indices slots)))"
proof -
  have "smallest_chain_index slots = Min (set (SIZE_MAX # chain_indices slots))"
    unfolding smallest_chain_index_def by (rule Min.set_eq_fold [symmetric])
  also have "\<dots> = (if chain_indices slots = [] then SIZE_MAX
                    else Min (set (chain_indices slots)))"
  proof (cases "chain_indices slots = []")
    case True
    then show ?thesis by simp
  next
    case False
    then have "Min (insert SIZE_MAX (set (chain_indices slots)))
                 = min SIZE_MAX (Min (set (chain_indices slots)))"
      by (intro Min_insert) auto
    also have "\<dots> = Min (set (chain_indices slots))"
    proof -
      have "Min (set (chain_indices slots)) \<le> SIZE_MAX"
        unfolding SIZE_MAX_def by (rule word_n1_ge)
      then show ?thesis by (simp add: min_def)
    qed
    finally show ?thesis using False by simp
  qed
  finally show ?thesis .
qed

lemma smallest_chain_index_le:
  assumes "h \<in> set slots" "he_value h = Cipher c"
  shows "smallest_chain_index slots \<le> chain_index c"
proof -
  from assms have "chain_index c \<in> set (chain_indices slots)"
    by (auto simp: set_chain_indices)
  then show ?thesis
    by (auto simp: smallest_chain_index_Min)
qed

text \<open>
  Claim C2. \<open>match_to_smallest_chain_index\<close> returns \<^verbatim>\<open>SIZE_MAX\<close> when no slot is a
  ciphertext and the minimum chain index of the ciphertext slots otherwise; the vector keeps
  its length, every plaintext slot is unchanged, and every ciphertext slot is the same
  ciphertext at the returned chain index.
\<close>

theorem match_to_smallest_chain_index_result:
  "fst (match_to_smallest_chain_index slots) =
     (if \<exists>h \<in> set slots. is_ciphertext h
      then Min {chain_index c |c h. h \<in> set slots \<and> he_value h = Cipher c}
      else SIZE_MAX)
   \<and> length (snd (match_to_smallest_chain_index slots)) = length slots
   \<and> (\<forall>i < length slots.
        (is_plaintext (slots ! i) \<longrightarrow> snd (match_to_smallest_chain_index slots) ! i = slots ! i)
      \<and> (\<forall>c. he_value (slots ! i) = Cipher c \<longrightarrow>
             snd (match_to_smallest_chain_index slots) ! i
               = (slots ! i)\<lparr>he_value :=
                    Cipher (c\<lparr>chain_index := fst (match_to_smallest_chain_index slots)\<rparr>)\<rparr>))"
proof (intro conjI allI impI)
  have "(\<exists>h \<in> set slots. is_ciphertext h) \<longleftrightarrow> chain_indices slots \<noteq> []"
    by (auto simp: chain_indices_empty is_plaintext_def is_ciphertext_def split: he_value.splits)
  then show "fst (match_to_smallest_chain_index slots) =
     (if \<exists>h \<in> set slots. is_ciphertext h
      then Min {chain_index c |c h. h \<in> set slots \<and> he_value h = Cipher c}
      else SIZE_MAX)"
    by (simp add: match_to_smallest_chain_index_def Let_def smallest_chain_index_Min
        set_chain_indices)
next
  show "length (snd (match_to_smallest_chain_index slots)) = length slots"
    by (simp add: match_to_smallest_chain_index_def Let_def)
next
  fix i assume "i < length slots" "is_plaintext (slots ! i)"
  then show "snd (match_to_smallest_chain_index slots) ! i = slots ! i"
    by (simp add: match_to_smallest_chain_index_def Let_def switch_slot_def is_plaintext_def
        split: he_value.splits)
next
  fix i c assume i: "i < length slots" and c: "he_value (slots ! i) = Cipher c"
  from i have "slots ! i \<in> set slots" by simp
  from smallest_chain_index_le [OF this c]
  have le: "smallest_chain_index slots \<le> chain_index c" .
  show "snd (match_to_smallest_chain_index slots) ! i
          = (slots ! i)\<lparr>he_value :=
               Cipher (c\<lparr>chain_index := fst (match_to_smallest_chain_index slots)\<rparr>)\<rparr>"
  proof (cases "smallest_chain_index slots < chain_index c")
    case True
    with i c show ?thesis
      by (simp add: match_to_smallest_chain_index_def Let_def switch_slot_def mod_switch_to_def)
  next
    case False
    with le have "chain_index c = smallest_chain_index slots" by simp
    then have "c\<lparr>chain_index := smallest_chain_index slots\<rparr> = c" by simp
    moreover from c have "(slots ! i)\<lparr>he_value := Cipher c\<rparr> = slots ! i" by simp
    ultimately show ?thesis using i c False
      by (simp add: match_to_smallest_chain_index_def Let_def switch_slot_def)
  qed
qed


theorem match_to_smallest_chain_index_result_witness:
  "is_plaintext ([sample_plain [1, 2, 3], sample_cipher 3 0, sample_cipher 1 1] ! 0)
   \<and> is_ciphertext ([sample_plain [1, 2, 3], sample_cipher 3 0, sample_cipher 1 1] ! 1)
   \<and> fst (match_to_smallest_chain_index
             [sample_plain [1, 2, 3], sample_cipher 3 0, sample_cipher 1 1]) = 1
   \<and> snd (match_to_smallest_chain_index
             [sample_plain [1, 2, 3], sample_cipher 3 0, sample_cipher 1 1]) ! 0
       = sample_plain [1, 2, 3]
   \<and> snd (match_to_smallest_chain_index
             [sample_plain [1, 2, 3], sample_cipher 3 0, sample_cipher 1 1]) ! 1
       = sample_cipher 1 0"
proof -
  let ?s = "[sample_plain [1, 2, 3], sample_cipher 3 0, sample_cipher 1 1]"
  have p: "is_plaintext (?s ! 0)"
    by (simp add: is_plaintext_def sample_plain_def)
  have c: "he_value (?s ! 1) = Cipher \<lparr>chain_index = 3, scale = 1, payload = 0\<rparr>"
    by (simp add: sample_cipher_def)
  then have c': "is_ciphertext (?s ! 1)"
    by (simp add: is_ciphertext_def)
  have f: "fst (match_to_smallest_chain_index ?s) = 1"
    by (simp add: match_to_smallest_chain_index_def smallest_chain_index_def SIZE_MAX_def
        sample_cipher_def sample_plain_def)
  note t = match_to_smallest_chain_index_result [of ?s]
  have l: "0 < length ?s" "1 < length ?s" by simp_all
  from t [THEN conjunct2, THEN conjunct2, THEN spec, of 0, THEN mp, OF l(1),
          THEN conjunct1, THEN mp, OF p]
  have 0: "snd (match_to_smallest_chain_index ?s) ! 0 = sample_plain [1, 2, 3]"
    by simp
  from t [THEN conjunct2, THEN conjunct2, THEN spec, of 1, THEN mp, OF l(2),
          THEN conjunct2, THEN spec, THEN mp, OF c]
  have "snd (match_to_smallest_chain_index ?s) ! 1
      = (?s ! 1)\<lparr>he_value := Cipher (\<lparr>chain_index = 3, scale = 1, payload = 0\<rparr>
           \<lparr>chain_index := fst (match_to_smallest_chain_index ?s)\<rparr>)\<rparr>" .
  then have 1: "snd (match_to_smallest_chain_index ?s) ! 1 = sample_cipher 1 0"
    unfolding f by (simp add: sample_cipher_def)
  from p c' f 0 1 show ?thesis by simp
qed

section \<open>Client-aided operations\<close>

subsection \<open>What the response handlers change\<close>

lemma store_relu_results_frame:
  "store_relu_results hs k ex = Inr ex' \<Longrightarrow>
     ex' = ex\<lparr>m_relu_data := m_relu_data ex'\<rparr>
     \<and> length (m_relu_data ex') = length (m_relu_data ex)
     \<and> (\<forall>i. i \<notin> set (m_unknown_relu_idx ex) \<longrightarrow> m_relu_data ex' ! i = m_relu_data ex ! i)"
proof (induction hs arbitrary: k ex)
  case Nil
  then show ?case by simp
next
  case (Cons h hs)
  let ?k = "k + m_relu_done_count ex"
  let ?ex1 = "ex\<lparr>m_relu_data := (m_relu_data ex)[m_unknown_relu_idx ex ! ?k := h]\<rparr>"
  from Cons.prems have ok: "?k < length (m_unknown_relu_idx ex)"
    and rest: "store_relu_results hs (Suc k) ?ex1 = Inr ex'"
    by (auto simp: Let_def split: if_splits)
  from ok have mem: "m_unknown_relu_idx ex ! ?k \<in> set (m_unknown_relu_idx ex)"
    by (rule nth_mem)
  have upd: "(m_relu_data ex)[m_unknown_relu_idx ex ! ?k := h] ! i = m_relu_data ex ! i"
    if "i \<notin> set (m_unknown_relu_idx ex)" for i
    using that mem by (metis nth_list_update_neq)
  from Cons.IH [OF rest] show ?case
    by (simp add: upd)
qed

lemma handle_relu_result_frame:
  assumes "handle_relu_result ex msg = Inr ex'"
  shows "m_max_pool_done ex' = m_max_pool_done ex"
    and "m_max_pool_data ex' = m_max_pool_data ex"
    and "events ex' = events ex"
    and "m_unknown_relu_idx ex' = m_unknown_relu_idx ex"
    and "length (m_relu_data ex') = length (m_relu_data ex)"
    and "\<forall>i. i \<notin> set (m_unknown_relu_idx ex) \<longrightarrow> m_relu_data ex' ! i = m_relu_data ex ! i"
proof -
  from assms obtain ex1 where
    s: "store_relu_results (he_tensors msg ! 0) 0 ex = Inr ex1" and
    e: "ex' = ex1\<lparr>m_relu_done_count := m_relu_done_count ex1 + length (he_tensors msg ! 0)\<rparr>"
    by (auto simp: handle_relu_result_def NGRAPH_CHECK_Inr then_do_Inr Let_def)
  from store_relu_results_frame [OF s] have
    f: "ex1 = ex\<lparr>m_relu_data := m_relu_data ex1\<rparr>" and
    l: "length (m_relu_data ex1) = length (m_relu_data ex)" and
    u: "\<forall>i. i \<notin> set (m_unknown_relu_idx ex) \<longrightarrow> m_relu_data ex1 ! i = m_relu_data ex ! i"
    by blast+
  have "m_max_pool_done ex1 = m_max_pool_done ex" "m_max_pool_data ex1 = m_max_pool_data ex"
    "events ex1 = events ex" "m_unknown_relu_idx ex1 = m_unknown_relu_idx ex"
    by (subst f, simp)+
  with e l u show "m_max_pool_done ex' = m_max_pool_done ex"
    and "m_max_pool_data ex' = m_max_pool_data ex"
    and "events ex' = events ex"
    and "m_unknown_relu_idx ex' = m_unknown_relu_idx ex"
    and "length (m_relu_data ex') = length (m_relu_data ex)"
    and "\<forall>i. i \<notin> set (m_unknown_relu_idx ex) \<longrightarrow> m_relu_data ex' ! i = m_relu_data ex ! i"
    by simp_all
qed

lemma handle_max_pool_result_Inr:
  "handle_max_pool_result ex msg = Inr ex' \<longleftrightarrow>
     length (he_tensors msg) = 1 \<and> length (he_tensors msg ! 0) = 1
     \<and> ex' = ex\<lparr>m_max_pool_data := m_max_pool_data ex @ [he_tensors msg ! 0 ! 0],
                m_max_pool_done := True\<rparr>"
  by (auto simp: handle_max_pool_result_def NGRAPH_CHECK_Inr Let_def)

lemma handle_message_wakes_max_pool:
  assumes h: "handle_message E ex resp = Inr ex2"
    and before: "\<not> m_max_pool_done ex" and after: "m_max_pool_done ex2"
  shows "msg_type resp = RESPONSE \<and> function_name resp = Some ''MaxPool''
    \<and> length (he_tensors resp) = 1 \<and> length (he_tensors resp ! 0) = 1
    \<and> ex2 = ex\<lparr>m_max_pool_data := m_max_pool_data ex @ [he_tensors resp ! 0 ! 0],
               m_max_pool_done := True\<rparr>"
proof (cases "msg_type resp")
  case UNKNOWN
  with h show ?thesis by (simp add: handle_message_def)
next
  case REQUEST
  with h have "ex2 = ex"
    by (auto simp: handle_message_def then_do_Inr split: if_splits)
  with before after show ?thesis by simp
next
  case RESPONSE
  show ?thesis
  proof (cases "function_name resp")
    case None
    with RESPONSE h have "ex2 = ex" by (simp add: handle_message_def)
    with before after show ?thesis by simp
  next
    case (Some name)
    with RESPONSE h have known: "name \<in> {''Relu'', ''BoundedRelu'', ''MaxPool''}"
      by (simp add: handle_message_def NGRAPH_CHECK_Inr)
    have "name \<noteq> ''Relu''"
    proof
      assume "name = ''Relu''"
      with RESPONSE Some h have "handle_relu_result ex resp = Inr ex2"
        by (simp add: handle_message_def NGRAPH_CHECK_Inr)
      from handle_relu_result_frame(1) [OF this] before after show False by simp
    qed
    moreover have "name \<noteq> ''BoundedRelu''"
    proof
      assume "name = ''BoundedRelu''"
      with RESPONSE Some h have "handle_relu_result ex resp = Inr ex2"
        by (simp add: handle_message_def NGRAPH_CHECK_Inr handle_bounded_relu_result_def)
      from handle_relu_result_frame(1) [OF this] before after show False by simp
    qed
    ultimately have n: "name = ''MaxPool''" using known by blast
    with RESPONSE Some h have "handle_max_pool_result ex resp = Inr ex2"
      by (simp add: handle_message_def NGRAPH_CHECK_Inr)
    with RESPONSE Some n show ?thesis by (simp add: handle_max_pool_result_Inr)
  qed
qed

subsection \<open>The loop of the MaxPool handler\<close>

lemma gather_Inr:
  "gather slots is = Inr b \<longleftrightarrow> (\<forall>i \<in> set is. i < length slots) \<and> b = map ((!) slots) is"
  by (induction "is" arbitrary: b) (auto simp: then_do_Inr)


lemma max_pool_loop_Inr:
  assumes "max_pool_loop E node arg ls ex = Inr ex'" and "\<not> m_max_pool_done ex"
  shows "events ex' = events ex
           @ concat (map (\<lambda>l. [Write (max_pool_request E node arg l), WaitMaxPoolDone]) ls)
    \<and> m_max_pool_data ex' = m_max_pool_data ex
           @ map (\<lambda>l. he_tensors (client E (max_pool_request E node arg l)) ! 0 ! 0) ls
    \<and> \<not> m_max_pool_done ex'
    \<and> (\<forall>l \<in> set ls. l \<noteq> [] \<and> (\<forall>i \<in> set l. i < length (data arg))
          \<and> length (write_to_pb_tensors E (max_pool_tensor (map ((!) (data arg)) l))) = 1
          \<and> good_max_pool_response (client E (max_pool_request E node arg l)))"
  using assms
proof (induction ls arbitrary: ex)
  case Nil
  then show ?case by simp
next
  case (Cons l ls)
  let ?batch = "map ((!) (data arg)) l"
  let ?req = "max_pool_request E node arg l"
  let ?ex1 = "write_message ?req ex"
  from Cons.prems(1) obtain ex2 where
    idx: "\<forall>i \<in> set l. i < length (data arg)" and
    ne: "?batch \<noteq> []" and
    one: "length (write_to_pb_tensors E (max_pool_tensor ?batch)) = 1" and
    h: "handle_message E ?ex1 (client E ?req) = Inr ex2" and
    woke: "m_max_pool_done ex2" and
    rest: "max_pool_loop E node arg ls
             ((log_event WaitMaxPoolDone ex2)\<lparr>m_max_pool_done := False\<rparr>) = Inr ex'"
    by (auto simp: then_do_Inr gather_Inr NGRAPH_CHECK_Inr Let_def max_pool_request_def
        split: if_splits)
  from Cons.prems(2) have before: "\<not> m_max_pool_done ?ex1"
    by (simp add: write_message_def log_event_def)
  from handle_message_wakes_max_pool [OF h before woke] have
    good: "good_max_pool_response (client E ?req)" and
    ex2: "ex2 = ?ex1\<lparr>m_max_pool_data :=
                       m_max_pool_data ?ex1 @ [he_tensors (client E ?req) ! 0 ! 0],
                     m_max_pool_done := True\<rparr>"
    by (simp_all add: good_max_pool_response_def)
  let ?ex3 = "(log_event WaitMaxPoolDone ex2)\<lparr>m_max_pool_done := False\<rparr>"
  have ev3: "events ?ex3 = events ex @ [Write ?req, WaitMaxPoolDone]"
    by (subst ex2) (simp add: write_message_def log_event_def)
  have d3: "m_max_pool_data ?ex3 = m_max_pool_data ex @ [he_tensors (client E ?req) ! 0 ! 0]"
    by (subst ex2) (simp add: write_message_def log_event_def)
  have nd3: "\<not> m_max_pool_done ?ex3" by simp
  from Cons.IH [OF rest nd3] ev3 d3 idx ne one good show ?case
    by simp
qed

subsection \<open>The loops of the Relu handler\<close>

lemma is_plaintext_switch_slot [simp]: "is_plaintext (switch_slot s h) = is_plaintext h"
  by (simp add: switch_slot_def is_plaintext_def split: he_value.splits)

lemma is_ciphertext_switch_slot [simp]: "is_ciphertext (switch_slot s h) = is_ciphertext h"
  by (simp add: switch_slot_def is_ciphertext_def split: he_value.splits)

lemma switch_slot_plaintext: "is_plaintext h \<Longrightarrow> switch_slot s h = h"
  by (simp add: switch_slot_def is_plaintext_def split: he_value.splits)

lemma not_plaintext_iff: "\<not> is_plaintext h \<longleftrightarrow> is_ciphertext h"
  by (simp add: is_plaintext_def is_ciphertext_def split: he_value.splits)

lemma fold_write_message:
  "fold (\<lambda>pb. write_message (f pb)) pbs ex = ex\<lparr>events := events ex @ map (\<lambda>pb. Write (f pb)) pbs\<rparr>"
  by (induction pbs arbitrary: ex) (simp_all add: write_message_def log_event_def)

lemma process_unknown_relu_ciphers_batch_eq:
  "process_unknown_relu_ciphers_batch E node arg b ex =
     ex\<lparr>events := events ex
          @ map (\<lambda>pb. Write (request_message node pb)) (write_to_pb_tensors E (relu_tensor arg b))\<rparr>"
  by (simp add: process_unknown_relu_ciphers_batch_def Let_def fold_write_message)

lemma process_known_values_result:
  assumes "distinct idxs"
  shows "m_unknown_relu_idx (process_known_values E tid node arg idxs ex)
           = m_unknown_relu_idx ex @ filter (\<lambda>i. \<not> is_plaintext (data arg ! i)) idxs
    \<and> length (m_relu_data (process_known_values E tid node arg idxs ex))
           = length (m_relu_data ex)
    \<and> (\<forall>i. i \<notin> set idxs \<longrightarrow>
          m_relu_data (process_known_values E tid node arg idxs ex) ! i = m_relu_data ex ! i)
    \<and> (\<forall>i \<in> set idxs. i < length (m_relu_data ex) \<longrightarrow> is_plaintext (data arg ! i) \<longrightarrow>
          m_relu_data (process_known_values E tid node arg idxs ex) ! i
            = set_plaintext
                (if tid = Relu then scalar_relu_seal E (get_plaintext (data arg ! i))
                 else scalar_bounded_relu_seal E (get_plaintext (data arg ! i)) (alpha node))
                (m_relu_data ex ! i))
    \<and> events (process_known_values E tid node arg idxs ex) = events ex
    \<and> m_relu_done_count (process_known_values E tid node arg idxs ex) = m_relu_done_count ex"
  using assms
proof (induction idxs arbitrary: ex)
  case Nil
  then show ?case by simp
next
  case (Cons i idxs)
  let ?v = "set_plaintext
                (if tid = Relu then scalar_relu_seal E (get_plaintext (data arg ! i))
                 else scalar_bounded_relu_seal E (get_plaintext (data arg ! i)) (alpha node))
                (m_relu_data ex ! i)"
  let ?ex1 = "if is_plaintext (data arg ! i)
              then ex\<lparr>m_relu_data := (m_relu_data ex)[i := ?v]\<rparr>
              else ex\<lparr>m_unknown_relu_idx := m_unknown_relu_idx ex @ [i]\<rparr>"
  have step: "process_known_values E tid node arg (i # idxs) ex
                = process_known_values E tid node arg idxs ?ex1"
    by (simp add: Let_def)
  from Cons.prems have d: "distinct idxs" and ni: "i \<notin> set idxs" by simp_all
  note IH = Cons.IH [OF d, of ?ex1]
  show ?case
  proof (cases "is_plaintext (data arg ! i)")
    case True
    then have ex1: "?ex1 = ex\<lparr>m_relu_data := (m_relu_data ex)[i := ?v]\<rparr>" by simp
    have neq: "(m_relu_data ex)[i := ?v] ! j = m_relu_data ex ! j" if "j \<in> set idxs" for j
      using that ni by (metis nth_list_update_neq)
    from IH True show ?thesis
      unfolding step ex1 by (auto simp: neq)
  next
    case False
    then have ex1: "?ex1 = ex\<lparr>m_unknown_relu_idx := m_unknown_relu_idx ex @ [i]\<rparr>" by simp
    from IH False show ?thesis
      unfolding step ex1 by auto
  qed
qed


lemma process_unknown_values_result:
  assumes "\<forall>i \<in> set idxs. is_ciphertext (data arg ! i)"
    and "length batch < max_relu_message_cnt"
  shows "\<exists>batches batch'.
      process_unknown_values E node arg idxs batch ex
        = Inr (batch',
               ex\<lparr>events := events ex
                    @ concat (map (\<lambda>b. map (\<lambda>pb. Write (request_message node pb))
                                          (write_to_pb_tensors E (relu_tensor arg b)))
                               batches)\<rparr>)
    \<and> concat batches @ batch' = batch @ map ((!) (data arg)) idxs
    \<and> (\<forall>b \<in> set batches. length b = max_relu_message_cnt)
    \<and> length batch' < max_relu_message_cnt"
  using assms
proof (induction idxs arbitrary: batch ex)
  case Nil
  have "process_unknown_values E node arg [] batch ex
          = Inr (batch, ex\<lparr>events := events ex @ concat (map (\<lambda>b. map (\<lambda>pb. Write (request_message node pb))
                                          (write_to_pb_tensors E (relu_tensor arg b))) [])\<rparr>)"
    by simp
  with Nil.prems(2) show ?case
    by (intro exI [of _ "[]"] exI [of _ batch]) simp
next
  case (Cons i idxs)
  let ?b1 = "batch @ [data arg ! i]"
  let ?w = "\<lambda>b. map (\<lambda>pb. Write (request_message node pb))
                 (write_to_pb_tensors E (relu_tensor arg b))"
  from Cons.prems have ci: "is_ciphertext (data arg ! i)"
    and cs: "\<forall>i \<in> set idxs. is_ciphertext (data arg ! i)" by simp_all
  show ?case
  proof (cases "length ?b1 = max_relu_message_cnt")
    case True
    let ?ex1 = "process_unknown_relu_ciphers_batch E node arg ?b1 ex"
    have step: "process_unknown_values E node arg (i # idxs) batch ex
                  = process_unknown_values E node arg idxs [] ?ex1"
      using ci True by (simp add: NGRAPH_CHECK_def Let_def)
    have "length ([]::HEType list) < max_relu_message_cnt"
      by (simp add: max_relu_message_cnt_def)
    from Cons.IH [OF cs this, of ?ex1] obtain batches batch' where
      r: "process_unknown_values E node arg idxs [] ?ex1
            = Inr (batch', ?ex1\<lparr>events := events ?ex1 @ concat (map ?w batches)\<rparr>)" and
      c: "concat batches @ batch' = [] @ map ((!) (data arg)) idxs" and
      l: "\<forall>b \<in> set batches. length b = max_relu_message_cnt" and
      l': "length batch' < max_relu_message_cnt"
      by blast
    have e: "?ex1\<lparr>events := events ?ex1 @ concat (map ?w batches)\<rparr>
               = ex\<lparr>events := events ex @ concat (map ?w (?b1 # batches))\<rparr>"
      by (simp add: process_unknown_relu_ciphers_batch_eq)
    show ?thesis
      apply (rule exI [of _ "?b1 # batches"])
      apply (rule exI [of _ batch'])
      using r c l l' True unfolding step e
      apply simp
      done
  next
    case False
    with Cons.prems(2) have lt: "length ?b1 < max_relu_message_cnt" by simp
    have step: "process_unknown_values E node arg (i # idxs) batch ex
                  = process_unknown_values E node arg idxs ?b1 ex"
      using ci False by (simp add: NGRAPH_CHECK_def Let_def)
    from Cons.IH [OF cs lt, of ex] show ?thesis
      unfolding step by simp
  qed
qed


lemma length_resize [simp]: "length (resize n v xs) = n"
  by (simp add: resize_def)

lemma data_matched:
  "i < length slots \<Longrightarrow>
   snd (match_to_smallest_chain_index slots) ! i = switch_slot (smallest_chain_index slots) (slots ! i)"
  by (simp add: match_to_smallest_chain_index_def Let_def)

lemma length_matched [simp]: "length (snd (match_to_smallest_chain_index slots)) = length slots"
  by (simp add: match_to_smallest_chain_index_def Let_def)

lemma filter_cong_upt:
  "(\<And>i. i < n \<Longrightarrow> P i = Q i) \<Longrightarrow> filter P [0..<n] = filter Q [0..<n]"
  by (rule filter_cong) auto

lemma send_relu_requests_total:
  assumes tid: "get_typeid (description node) = Relu \<or> get_typeid (description node) = BoundedRelu"
  shows "\<exists>ex5 batches.
      send_relu_requests E arg node ex
        = Inr (ex5, arg\<lparr>data := snd (match_to_smallest_chain_index (data arg))\<rparr>)
    \<and> m_unknown_relu_idx ex5
        = filter (\<lambda>i. is_ciphertext (data arg ! i)) [0..<length (data arg)]
    \<and> length (m_relu_data ex5) = length (data arg)
    \<and> (\<forall>i < length (data arg). is_plaintext (data arg ! i) \<longrightarrow>
          he_value (m_relu_data ex5 ! i)
            = Plain (if get_typeid (description node) = Relu
                     then scalar_relu_seal E (get_plaintext (data arg ! i))
                     else scalar_bounded_relu_seal E (get_plaintext (data arg ! i)) (alpha node)))
    \<and> m_relu_done_count ex5 = m_relu_done_count ex
    \<and> events ex5 = events ex
         @ concat (map (\<lambda>b. map (\<lambda>pb. Write (request_message node pb))
                               (write_to_pb_tensors E
                                  (relu_tensor
                                     (arg\<lparr>data := snd (match_to_smallest_chain_index (data arg))\<rparr>)
                                     b)))
                    batches)
    \<and> concat batches
        = map ((!) (snd (match_to_smallest_chain_index (data arg)))) (m_unknown_relu_idx ex5)
    \<and> (\<forall>b \<in> set batches. b \<noteq> [] \<and> length b \<le> max_relu_message_cnt)
    \<and> (\<forall>b \<in> set (butlast batches). length b = max_relu_message_cnt)"
proof -
  let ?tid = "get_typeid (description node)"
  let ?n = "length (data arg)"
  let ?arg1 = "arg\<lparr>data := snd (match_to_smallest_chain_index (data arg))\<rparr>"
  let ?ex2 = "ex\<lparr>m_relu_data := resize ?n empty_HEType (m_relu_data ex),
                 m_unknown_relu_idx := []\<rparr>"
  let ?ex3 = "process_known_values E ?tid node ?arg1 [0..<?n] ?ex2"
  let ?w = "\<lambda>b. map (\<lambda>pb. Write (request_message node pb))
                 (write_to_pb_tensors E (relu_tensor ?arg1 b))"
  have d: "distinct [0..<?n]" by simp
  note pk = process_known_values_result [OF d, of E ?tid node ?arg1 ?ex2]
  have value_same: "get_plaintext (data ?arg1 ! i) = get_plaintext (data arg ! i)"
    if "i < ?n" "is_plaintext (data arg ! i)" for i
    using that by (simp add: data_matched switch_slot_plaintext)
  have unknown3: "m_unknown_relu_idx ?ex3 = filter (\<lambda>i. is_ciphertext (data arg ! i)) [0..<?n]"
  proof -
    from pk have "m_unknown_relu_idx ?ex3
        = filter (\<lambda>i. \<not> is_plaintext (data ?arg1 ! i)) [0..<?n]"
      by simp
    also have "\<dots> = filter (\<lambda>i. is_ciphertext (data arg ! i)) [0..<?n]"
      by (rule filter_cong_upt) (simp add: not_plaintext_iff data_matched)
    finally show ?thesis .
  qed
  have len3: "length (m_relu_data ?ex3) = ?n"
    using pk by simp
  have known3: "he_value (m_relu_data ?ex3 ! i)
      = Plain (if ?tid = Relu then scalar_relu_seal E (get_plaintext (data arg ! i))
               else scalar_bounded_relu_seal E (get_plaintext (data arg ! i)) (alpha node))"
    if "i < ?n" "is_plaintext (data arg ! i)" for i
  proof -
    from that have "i \<in> set [0..<?n]" "i < length (m_relu_data ?ex2)"
      "is_plaintext (data ?arg1 ! i)"
      by (simp_all add: data_matched)
    with pk have "m_relu_data ?ex3 ! i
        = set_plaintext
            (if ?tid = Relu then scalar_relu_seal E (get_plaintext (data ?arg1 ! i))
             else scalar_bounded_relu_seal E (get_plaintext (data ?arg1 ! i)) (alpha node))
            (m_relu_data ?ex2 ! i)"
      by blast
    then show ?thesis
      using value_same [OF that] by (simp add: set_plaintext_def)
  qed
  have ev3: "events ?ex3 = events ex" and cnt3: "m_relu_done_count ?ex3 = m_relu_done_count ex"
    using pk by simp_all
  have allc: "\<forall>i \<in> set (m_unknown_relu_idx ?ex3). is_ciphertext (data ?arg1 ! i)"
    unfolding unknown3 by (simp add: data_matched)
  have "length ([]::HEType list) < max_relu_message_cnt"
    by (simp add: max_relu_message_cnt_def)
  from process_unknown_values_result [OF allc this, of E node ?ex3]
  obtain batches batch' where
    pu: "process_unknown_values E node ?arg1 (m_unknown_relu_idx ?ex3) [] ?ex3
           = Inr (batch', ?ex3\<lparr>events := events ?ex3 @ concat (map ?w batches)\<rparr>)" and
    cc: "concat batches @ batch' = map ((!) (data ?arg1)) (m_unknown_relu_idx ?ex3)" and
    full: "\<forall>b \<in> set batches. length b = max_relu_message_cnt" and
    short: "length batch' < max_relu_message_cnt"
    by auto
  let ?ex4 = "?ex3\<lparr>events := events ?ex3 @ concat (map ?w batches)\<rparr>"
  let ?ex5 = "if batch' \<noteq> [] then process_unknown_relu_ciphers_batch E node ?arg1 batch' ?ex4
              else ?ex4"
  let ?all = "batches @ (if batch' \<noteq> [] then [batch'] else [])"
  have run: "send_relu_requests E arg node ex = Inr (?ex5, ?arg1)"
    using tid pu by (simp add: send_relu_requests_def NGRAPH_CHECK_def Let_def then_do_def)
  have ex5': "?ex5 = ?ex3\<lparr>events := events ex @ concat (map ?w ?all)\<rparr>"
    by (simp add: process_unknown_relu_ciphers_batch_eq ev3)
  have u5: "m_unknown_relu_idx ?ex5 = m_unknown_relu_idx ?ex3"
    and r5: "m_relu_data ?ex5 = m_relu_data ?ex3"
    and c5: "m_relu_done_count ?ex5 = m_relu_done_count ?ex3"
    and e5: "events ?ex5 = events ex @ concat (map ?w ?all)"
    unfolding ex5' by simp_all
  have sizes: "\<forall>b \<in> set ?all. b \<noteq> [] \<and> length b \<le> max_relu_message_cnt"
    using full short by (auto simp: max_relu_message_cnt_def)
  have bl: "\<forall>b \<in> set (butlast ?all). length b = max_relu_message_cnt"
    using full by (auto simp: butlast_append dest: in_set_butlastD)
  have cat: "concat ?all = map ((!) (data ?arg1)) (m_unknown_relu_idx ?ex5)"
    unfolding u5 using cc by auto
  show ?thesis
    apply (rule exI [of _ ?ex5])
    apply (rule exI [of _ ?all])
    apply (intro conjI)
            apply (rule run)
           apply (simp only: u5 unknown3)
          apply (simp only: r5 len3)
         apply (simp only: r5) apply (simp add: known3)
        apply (simp only: c5 cnt3)
       apply (rule e5)
      apply (use cat in simp)
     apply (rule sizes)
    apply (rule bl)
    done
qed

lemma send_relu_requests_tid:
  "send_relu_requests E arg node ex = Inr r \<Longrightarrow>
   get_typeid (description node) = Relu \<or> get_typeid (description node) = BoundedRelu"
  by (simp add: send_relu_requests_def NGRAPH_CHECK_Inr Let_def)

subsection \<open>Responses leave the known slots alone\<close>

lemma handle_message_frame:
  assumes h: "handle_message E ex msg = Inr ex'"
  shows "events ex' = events ex \<and> m_unknown_relu_idx ex' = m_unknown_relu_idx ex
    \<and> length (m_relu_data ex') = length (m_relu_data ex)
    \<and> (\<forall>i. i \<notin> set (m_unknown_relu_idx ex) \<longrightarrow> m_relu_data ex' ! i = m_relu_data ex ! i)"
proof (cases "msg_type msg")
  case UNKNOWN
  with h show ?thesis by (simp add: handle_message_def)
next
  case REQUEST
  with h have "ex' = ex"
    by (auto simp: handle_message_def then_do_Inr split: if_splits)
  then show ?thesis by simp
next
  case RESPONSE
  show ?thesis
  proof (cases "function_name msg")
    case None
    with RESPONSE h have "ex' = ex" by (simp add: handle_message_def)
    then show ?thesis by simp
  next
    case (Some name)
    with RESPONSE h have known: "name \<in> {''Relu'', ''BoundedRelu'', ''MaxPool''}"
      and body: "(if name = ''Relu'' then handle_relu_result ex msg
                 else if name = ''BoundedRelu'' then handle_bounded_relu_result ex msg
                 else if name = ''MaxPool'' then handle_max_pool_result ex msg
                 else Inr ex) = Inr ex'"
      by (simp_all add: handle_message_def NGRAPH_CHECK_Inr)
    have "handle_relu_result ex msg = Inr ex' \<or> handle_max_pool_result ex msg = Inr ex'
          \<or> ex' = ex"
    proof (cases "name = ''Relu''")
      case True
      with body show ?thesis by simp
    next
      case nr: False
      show ?thesis
      proof (cases "name = ''BoundedRelu''")
        case True
        with nr body show ?thesis by (simp add: handle_bounded_relu_result_def)
      next
        case nb: False
        show ?thesis
        proof (cases "name = ''MaxPool''")
          case True
          with nr nb body show ?thesis by simp
        next
          case False
          with nr nb body show ?thesis by simp
        qed
      qed
    qed
    then consider
      "handle_relu_result ex msg = Inr ex'" | "handle_max_pool_result ex msg = Inr ex'"
      | "ex' = ex"
      by blast
    then show ?thesis
    proof cases
      case 1
      from handle_relu_result_frame [OF 1] show ?thesis by simp
    next
      case 2
      then show ?thesis by (auto simp: handle_max_pool_result_Inr)
    next
      case 3
      then show ?thesis by simp
    qed
  qed
qed

lemma handle_responses_frame:
  assumes "handle_responses E reqs ex = Inr ex'"
  shows "events ex' = events ex \<and> m_unknown_relu_idx ex' = m_unknown_relu_idx ex
    \<and> length (m_relu_data ex') = length (m_relu_data ex)
    \<and> (\<forall>i. i \<notin> set (m_unknown_relu_idx ex) \<longrightarrow> m_relu_data ex' ! i = m_relu_data ex ! i)"
  using assms
proof (induction reqs arbitrary: ex)
  case Nil
  then show ?case by simp
next
  case (Cons r reqs)
  then obtain ex1 where h: "handle_message E ex (client E r) = Inr ex1"
    and rest: "handle_responses E reqs ex1 = Inr ex'"
    by (auto simp: then_do_Inr)
  from handle_message_frame [OF h] Cons.IH [OF rest] show ?case by simp
qed

lemma written_append: "written (xs @ ys) = written xs @ written ys"
  by (induction xs) (auto split: event.splits)

lemma written_map_Write: "written (map (\<lambda>x. Write (f x)) xs) = map f xs"
  by (induction xs) auto

lemma written_concat_Write:
  "written (concat (map (\<lambda>b. map (\<lambda>pb. Write (f pb)) (g b)) bs)) = concat (map (\<lambda>b. map f (g b)) bs)"
  by (induction bs) (auto simp: written_append written_map_Write)

lemma relu_trace_as_writes:
  "concat (map (\<lambda>b. map (\<lambda>pb. Write (f pb)) (g b)) bs)
     = map Write (concat (map (\<lambda>b. map f (g b)) bs))"
  by (induction bs) simp_all

subsection \<open>Complete runs of the handlers\<close>

lemma batches_of_nonempty:
  "xs \<noteq> [] \<Longrightarrow> 0 < n \<Longrightarrow> batches_of n xs = take n xs # batches_of n (drop n xs)"
  by (cases xs) simp_all

lemma batches_of_unique:
  assumes "0 < n" and "\<forall>b \<in> set bs. b \<noteq> [] \<and> length b \<le> n"
    and "\<forall>b \<in> set (butlast bs). length b = n"
  shows "batches_of n (concat bs) = bs"
  using assms(2,3)
proof (induction bs)
  case Nil
  then show ?case by simp
next
  case (Cons b bs)
  from Cons.prems have b: "b \<noteq> []" "length b \<le> n" by simp_all
  show ?case
  proof (cases "bs = []")
    case True
    with b assms(1) show ?thesis by (simp add: batches_of_nonempty)
  next
    case False
    with Cons.prems have full: "length b = n" by simp
    from False Cons.prems have "\<forall>b \<in> set bs. b \<noteq> [] \<and> length b \<le> n"
      "\<forall>b \<in> set (butlast bs). length b = n" by simp_all
    from Cons.IH [OF this] have ih: "batches_of n (concat bs) = bs" .
    from b have "concat (b # bs) \<noteq> []" by simp
    from batches_of_nonempty [OF this assms(1)] full ih show ?thesis by simp
  qed
qed


lemma filter_by_index:
  "map ((!) xs) (filter (\<lambda>i. P (xs ! i)) [0..<length xs]) = filter P xs"
proof -
  have "filter P xs = filter P (map ((!) xs) [0..<length xs])" by (simp add: map_nth)
  also have "\<dots> = map ((!) xs) (filter (P \<circ> (!) xs) [0..<length xs])" by (rule filter_map)
  finally show ?thesis by (simp add: comp_def)
qed

lemma store_relu_results_run:
  assumes "distinct (m_unknown_relu_idx ex)"
    and "\<forall>i \<in> set (m_unknown_relu_idx ex). i < length (m_relu_data ex)"
    and "k + m_relu_done_count ex + length hs \<le> length (m_unknown_relu_idx ex)"
  shows "\<exists>d. store_relu_results hs k ex = Inr (ex\<lparr>m_relu_data := d\<rparr>)
    \<and> length d = length (m_relu_data ex)
    \<and> (\<forall>j < length hs. d ! (m_unknown_relu_idx ex ! (k + m_relu_done_count ex + j)) = hs ! j)
    \<and> (\<forall>i. (\<forall>j < length hs. i \<noteq> m_unknown_relu_idx ex ! (k + m_relu_done_count ex + j))
          \<longrightarrow> d ! i = m_relu_data ex ! i)"
  using assms
proof (induction hs arbitrary: k ex)
  case Nil
  have "store_relu_results [] k ex = Inr (ex\<lparr>m_relu_data := m_relu_data ex\<rparr>)" by simp
  then show ?case by (intro exI [of _ "m_relu_data ex"]) simp
next
  case (Cons h hs)
  let ?u = "m_unknown_relu_idx ex"
  let ?c = "m_relu_done_count ex"
  let ?p = "?u ! (k + ?c)"
  let ?ex1 = "ex\<lparr>m_relu_data := (m_relu_data ex)[?p := h]\<rparr>"
  from Cons.prems(3) have kin: "k + ?c < length ?u" by simp
  then have pin: "?p \<in> set ?u" by simp
  with Cons.prems(2) have plt: "?p < length (m_relu_data ex)" by blast
  have step: "store_relu_results (h # hs) k ex = store_relu_results hs (Suc k) ?ex1"
    using kin plt by (simp add: Let_def)
  have a1: "distinct (m_unknown_relu_idx ?ex1)"
    and a2: "\<forall>i \<in> set (m_unknown_relu_idx ?ex1). i < length (m_relu_data ?ex1)"
    and a3: "Suc k + m_relu_done_count ?ex1 + length hs \<le> length (m_unknown_relu_idx ?ex1)"
    using Cons.prems by simp_all
  from Cons.IH [OF a1 a2 a3] obtain d where
    r: "store_relu_results hs (Suc k) ?ex1 = Inr (?ex1\<lparr>m_relu_data := d\<rparr>)" and
    l: "length d = length (m_relu_data ex)" and
    c: "\<forall>j < length hs. d ! (?u ! (Suc k + ?c + j)) = hs ! j" and
    f: "\<forall>i. (\<forall>j < length hs. i \<noteq> ?u ! (Suc k + ?c + j)) \<longrightarrow> d ! i = (m_relu_data ex)[?p := h] ! i"
    by auto
  have apart: "?p \<noteq> ?u ! (Suc k + ?c + j)" if "j < length hs" for j
  proof -
    from that Cons.prems(3) have "Suc k + ?c + j < length ?u" by simp
    with kin Cons.prems(1) show ?thesis by (simp add: nth_eq_iff_index_eq)
  qed
  have first: "d ! ?p = h"
    using f apart plt by simp
  have content: "d ! (?u ! (k + ?c + j)) = (h # hs) ! j" if "j < length (h # hs)" for j
  proof (cases j)
    case 0
    with first show ?thesis by simp
  next
    case (Suc j')
    with that c show ?thesis by simp
  qed
  have frame: "d ! i = m_relu_data ex ! i"
    if "\<forall>j < length (h # hs). i \<noteq> ?u ! (k + ?c + j)" for i
  proof -
    from that [THEN spec, of 0] have ne: "i \<noteq> ?p" by simp
    have "\<forall>j < length hs. i \<noteq> ?u ! (Suc k + ?c + j)"
    proof (intro allI impI)
      fix j assume "j < length hs"
      with that [THEN spec, of "Suc j"] show "i \<noteq> ?u ! (Suc k + ?c + j)" by simp
    qed
    with f have "d ! i = (m_relu_data ex)[?p := h] ! i" by blast
    with ne show ?thesis by simp
  qed
  have "store_relu_results (h # hs) k ex = Inr (ex\<lparr>m_relu_data := d\<rparr>)"
    unfolding step r by simp
  with l content frame show ?case by blast
qed

lemma handle_message_relu:
  assumes "relu_response r"
  shows "handle_message E ex r = handle_relu_result ex r"
proof -
  from assms have t: "msg_type r = RESPONSE" and one: "length (he_tensors r) = 1"
    and n: "function_name r = Some ''Relu'' \<or> function_name r = Some ''BoundedRelu''"
    by (simp_all add: relu_response_def)
  from n show ?thesis
  proof
    assume "function_name r = Some ''Relu''"
    with t show ?thesis by (simp add: handle_message_def NGRAPH_CHECK_def)
  next
    assume "function_name r = Some ''BoundedRelu''"
    with t show ?thesis
      by (simp add: handle_message_def NGRAPH_CHECK_def handle_bounded_relu_result_def)
  qed
qed



lemma handle_relu_result_run:
  assumes "length (he_tensors r) = 1"
    and "distinct (m_unknown_relu_idx ex)"
    and "\<forall>i \<in> set (m_unknown_relu_idx ex). i < length (m_relu_data ex)"
    and "m_relu_done_count ex + length (he_tensors r ! 0) \<le> length (m_unknown_relu_idx ex)"
  shows "\<exists>d. handle_relu_result ex r
        = Inr (ex\<lparr>m_relu_data := d,
                  m_relu_done_count := m_relu_done_count ex + length (he_tensors r ! 0)\<rparr>)
    \<and> length d = length (m_relu_data ex)
    \<and> (\<forall>j < length (he_tensors r ! 0).
          d ! (m_unknown_relu_idx ex ! (m_relu_done_count ex + j)) = he_tensors r ! 0 ! j)
    \<and> (\<forall>i. (\<forall>j < length (he_tensors r ! 0).
                 i \<noteq> m_unknown_relu_idx ex ! (m_relu_done_count ex + j))
          \<longrightarrow> d ! i = m_relu_data ex ! i)"
proof -
  from assms(4) have "0 + m_relu_done_count ex + length (he_tensors r ! 0)
      \<le> length (m_unknown_relu_idx ex)" by simp
  from store_relu_results_run [OF assms(2,3) this] obtain d where
    s: "store_relu_results (he_tensors r ! 0) 0 ex = Inr (ex\<lparr>m_relu_data := d\<rparr>)" and
    rest: "length d = length (m_relu_data ex)"
      "\<forall>j < length (he_tensors r ! 0).
          d ! (m_unknown_relu_idx ex ! (m_relu_done_count ex + j)) = he_tensors r ! 0 ! j"
      "\<forall>i. (\<forall>j < length (he_tensors r ! 0).
                 i \<noteq> m_unknown_relu_idx ex ! (m_relu_done_count ex + j))
          \<longrightarrow> d ! i = m_relu_data ex ! i"
    by auto
  have "handle_relu_result ex r
        = Inr (ex\<lparr>m_relu_data := d,
                  m_relu_done_count := m_relu_done_count ex + length (he_tensors r ! 0)\<rparr>)"
    using assms(1) s by (simp add: handle_relu_result_def NGRAPH_CHECK_def Let_def then_do_def)
  with rest show ?thesis by blast
qed

lemma returned_slots_Cons:
  "returned_slots E (m # ms) = he_tensors (client E m) ! 0 @ returned_slots E ms"
  by (simp add: returned_slots_def)


lemma handle_responses_run:
  assumes "\<forall>m \<in> set reqs. relu_response (client E m)"
    and "distinct (m_unknown_relu_idx ex)"
    and "\<forall>i \<in> set (m_unknown_relu_idx ex). i < length (m_relu_data ex)"
    and "m_relu_done_count ex + length (returned_slots E reqs) \<le> length (m_unknown_relu_idx ex)"
  shows "\<exists>d. handle_responses E reqs ex
        = Inr (ex\<lparr>m_relu_data := d,
                  m_relu_done_count := m_relu_done_count ex + length (returned_slots E reqs)\<rparr>)
    \<and> length d = length (m_relu_data ex)
    \<and> (\<forall>j < length (returned_slots E reqs).
          d ! (m_unknown_relu_idx ex ! (m_relu_done_count ex + j)) = returned_slots E reqs ! j)
    \<and> (\<forall>i. (\<forall>j < length (returned_slots E reqs).
                 i \<noteq> m_unknown_relu_idx ex ! (m_relu_done_count ex + j))
          \<longrightarrow> d ! i = m_relu_data ex ! i)"
  using assms
proof (induction reqs arbitrary: ex)
  case Nil
  have "handle_responses E [] ex
      = Inr (ex\<lparr>m_relu_data := m_relu_data ex,
                m_relu_done_count := m_relu_done_count ex + length (returned_slots E [])\<rparr>)"
    by (simp add: returned_slots_def)
  then show ?case
    by (intro exI [of _ "m_relu_data ex"]) (simp add: returned_slots_def)
next
  case (Cons m reqs)
  let ?u = "m_unknown_relu_idx ex"
  let ?c = "m_relu_done_count ex"
  let ?hs = "he_tensors (client E m) ! 0"
  let ?rest = "returned_slots E reqs"
  from Cons.prems(1) have good: "relu_response (client E m)"
    and goods: "\<forall>m \<in> set reqs. relu_response (client E m)" by simp_all
  from good have one: "length (he_tensors (client E m)) = 1"
    by (simp add: relu_response_def)
  from Cons.prems(4) have room: "?c + length ?hs + length ?rest \<le> length ?u"
    by (simp add: returned_slots_Cons)
  then have room1: "?c + length ?hs \<le> length ?u" by simp
  from handle_relu_result_run [OF one Cons.prems(2,3) room1] obtain d1 where
    h: "handle_relu_result ex (client E m)
          = Inr (ex\<lparr>m_relu_data := d1, m_relu_done_count := ?c + length ?hs\<rparr>)" and
    l1: "length d1 = length (m_relu_data ex)" and
    c1: "\<forall>j < length ?hs. d1 ! (?u ! (?c + j)) = ?hs ! j" and
    f1: "\<forall>i. (\<forall>j < length ?hs. i \<noteq> ?u ! (?c + j)) \<longrightarrow> d1 ! i = m_relu_data ex ! i"
    by auto
  let ?ex1 = "ex\<lparr>m_relu_data := d1, m_relu_done_count := ?c + length ?hs\<rparr>"
  have a2: "distinct (m_unknown_relu_idx ?ex1)"
    and a3: "\<forall>i \<in> set (m_unknown_relu_idx ?ex1). i < length (m_relu_data ?ex1)"
    and a4: "m_relu_done_count ?ex1 + length ?rest \<le> length (m_unknown_relu_idx ?ex1)"
    using Cons.prems(2,3) l1 room by simp_all
  from Cons.IH [OF goods a2 a3 a4] obtain d where
    r: "handle_responses E reqs ?ex1
          = Inr (?ex1\<lparr>m_relu_data := d,
                     m_relu_done_count := m_relu_done_count ?ex1 + length ?rest\<rparr>)" and
    l: "length d = length d1" and
    c: "\<forall>j < length ?rest. d ! (?u ! (?c + length ?hs + j)) = ?rest ! j" and
    f: "\<forall>i. (\<forall>j < length ?rest. i \<noteq> ?u ! (?c + length ?hs + j)) \<longrightarrow> d ! i = d1 ! i"
    by auto
  have run: "handle_responses E (m # reqs) ex
      = Inr (ex\<lparr>m_relu_data := d,
                m_relu_done_count := ?c + length (returned_slots E (m # reqs))\<rparr>)"
    using h r by (simp add: handle_message_relu [OF good] then_do_def returned_slots_Cons
        add.assoc)
  have content: "d ! (?u ! (?c + j)) = returned_slots E (m # reqs) ! j"
    if j: "j < length (returned_slots E (m # reqs))" for j
  proof (cases "j < length ?hs")
    case True
    have "?u ! (?c + j) \<noteq> ?u ! (?c + length ?hs + j')" if "j' < length ?rest" for j'
    proof -
      from that room have "?c + length ?hs + j' < length ?u" by simp
      moreover from True room have "?c + j < length ?u" by simp
      ultimately show ?thesis
        using Cons.prems(2) True by (simp add: nth_eq_iff_index_eq)
    qed
    with f have "d ! (?u ! (?c + j)) = d1 ! (?u ! (?c + j))" by blast
    with c1 True show ?thesis by (simp add: returned_slots_Cons nth_append)
  next
    case False
    then obtain j' where j': "j = length ?hs + j'"
      by (metis le_add_diff_inverse not_less)
    with j have "j' < length ?rest" by (simp add: returned_slots_Cons)
    with c j' show ?thesis by (simp add: returned_slots_Cons nth_append add.assoc)
  qed
  have frame: "d ! i = m_relu_data ex ! i"
    if i: "\<forall>j < length (returned_slots E (m # reqs)). i \<noteq> ?u ! (?c + j)" for i
  proof -
    have "\<forall>j < length ?rest. i \<noteq> ?u ! (?c + length ?hs + j)"
    proof (intro allI impI)
      fix j assume "j < length ?rest"
      with i [THEN spec, of "length ?hs + j"] show "i \<noteq> ?u ! (?c + length ?hs + j)"
        by (simp add: returned_slots_Cons add.assoc)
    qed
    with f have "d ! i = d1 ! i" by blast
    moreover have "\<forall>j < length ?hs. i \<noteq> ?u ! (?c + j)"
    proof (intro allI impI)
      fix j assume "j < length ?hs"
      with i [THEN spec, of j] show "i \<noteq> ?u ! (?c + j)"
        by (simp add: returned_slots_Cons)
    qed
    with f1 have "d1 ! i = m_relu_data ex ! i" by blast
    ultimately show ?thesis by simp
  qed
  from run l l1 content frame show ?case by (intro exI [of _ d]) simp
qed


lemma written_map: "written (map Write ms) = ms"
  by (induction ms) simp_all

lemma matched_ciphertexts:
  "map ((!) (snd (match_to_smallest_chain_index slots)))
       (filter (\<lambda>i. is_ciphertext (slots ! i)) [0..<length slots])
   = filter is_ciphertext (snd (match_to_smallest_chain_index slots))"
proof -
  let ?m = "snd (match_to_smallest_chain_index slots)"
  have "filter (\<lambda>i. is_ciphertext (slots ! i)) [0..<length slots]
      = filter (\<lambda>i. is_ciphertext (?m ! i)) [0..<length slots]"
    by (rule filter_cong_upt) (simp add: data_matched)
  then have "map ((!) ?m) (filter (\<lambda>i. is_ciphertext (slots ! i)) [0..<length slots])
      = map ((!) ?m) (filter (\<lambda>i. is_ciphertext (?m ! i)) [0..<length ?m])"
    by simp
  also have "\<dots> = filter is_ciphertext ?m" by (rule filter_by_index)
  finally show ?thesis .
qed

lemma count_ciphertexts:
  "length (filter (\<lambda>i. is_ciphertext (slots ! i)) [0..<length slots])
     = length (filter is_ciphertext slots)"
proof -
  have "length (map ((!) slots) (filter (\<lambda>i. is_ciphertext (slots ! i)) [0..<length slots]))
      = length (filter is_ciphertext slots)"
    by (simp only: filter_by_index)
  then show ?thesis by simp
qed

lemma count_matched_ciphertexts:
  "length (filter is_ciphertext (snd (match_to_smallest_chain_index slots)))
     = length (filter is_ciphertext slots)"
proof -
  have "length (filter is_ciphertext (snd (match_to_smallest_chain_index slots)))
      = length (filter (\<lambda>i. is_ciphertext (slots ! i)) [0..<length slots])"
    by (simp only: matched_ciphertexts [symmetric] length_map)
  then show ?thesis by (simp only: count_ciphertexts)
qed

lemma send_relu_requests_run:
  assumes tid: "get_typeid (description node) = Relu \<or> get_typeid (description node) = BoundedRelu"
  shows "\<exists>ex5.
      send_relu_requests E arg node ex
        = Inr (ex5, arg\<lparr>data := snd (match_to_smallest_chain_index (data arg))\<rparr>)
    \<and> m_unknown_relu_idx ex5
        = filter (\<lambda>i. is_ciphertext (data arg ! i)) [0..<length (data arg)]
    \<and> length (m_relu_data ex5) = length (data arg)
    \<and> (\<forall>i < length (data arg). is_plaintext (data arg ! i) \<longrightarrow>
          he_value (m_relu_data ex5 ! i)
            = Plain (if get_typeid (description node) = Relu
                     then scalar_relu_seal E (get_plaintext (data arg ! i))
                     else scalar_bounded_relu_seal E (get_plaintext (data arg ! i)) (alpha node)))
    \<and> m_relu_done_count ex5 = m_relu_done_count ex
    \<and> events ex5 = events ex @ map Write (relu_requests E node arg)"
proof -
  let ?arg1 = "arg\<lparr>data := snd (match_to_smallest_chain_index (data arg))\<rparr>"
  from send_relu_requests_total [OF tid, of E arg ex] obtain ex5 batches where
    run: "send_relu_requests E arg node ex = Inr (ex5, ?arg1)" and
    u5: "m_unknown_relu_idx ex5
           = filter (\<lambda>i. is_ciphertext (data arg ! i)) [0..<length (data arg)]" and
    l5: "length (m_relu_data ex5) = length (data arg)" and
    k5: "\<forall>i < length (data arg). is_plaintext (data arg ! i) \<longrightarrow>
          he_value (m_relu_data ex5 ! i)
            = Plain (if get_typeid (description node) = Relu
                     then scalar_relu_seal E (get_plaintext (data arg ! i))
                     else scalar_bounded_relu_seal E (get_plaintext (data arg ! i)) (alpha node))"
    and c5: "m_relu_done_count ex5 = m_relu_done_count ex"
    and e5: "events ex5 = events ex
            @ concat (map (\<lambda>b. map (\<lambda>pb. Write (request_message node pb))
                                  (write_to_pb_tensors E (relu_tensor ?arg1 b)))
                       batches)" and
    cat: "concat batches
            = map ((!) (snd (match_to_smallest_chain_index (data arg)))) (m_unknown_relu_idx ex5)"
    and sz: "\<forall>b \<in> set batches. b \<noteq> [] \<and> length b \<le> max_relu_message_cnt"
    and full: "\<forall>b \<in> set (butlast batches). length b = max_relu_message_cnt"
    by blast
  have pos: "0 < max_relu_message_cnt" by (simp add: max_relu_message_cnt_def)
  from cat have "concat batches = filter is_ciphertext (data ?arg1)"
    unfolding u5 by (simp add: matched_ciphertexts)
  with batches_of_unique [OF pos sz full]
  have b: "batches = batches_of max_relu_message_cnt (filter is_ciphertext (data ?arg1))"
    by simp
  from b have b': "batches_of max_relu_message_cnt
        (filter is_ciphertext (snd (match_to_smallest_chain_index (data arg)))) = batches"
    by simp
  have "events ex5 = events ex @ map Write (relu_requests E node arg)"
    unfolding e5 relu_trace_as_writes by (simp add: relu_requests_def Let_def b')
  with run u5 l5 k5 c5 show ?thesis by blast
qed


lemma handle_server_relu_op_run:
  assumes tid: "get_typeid (description node) = Relu \<or> get_typeid (description node) = BoundedRelu"
    and idle: "m_relu_done_count ex = 0"
    and typed: "\<forall>m \<in> set (relu_requests E node arg). relu_response (client E m)"
    and covered: "length (returned_slots E (relu_requests E node arg))
                    = length (filter is_ciphertext (data arg))"
  shows "\<exists>ex' out'.
      handle_server_relu_op E arg out node ex
        = Inr (ex', arg\<lparr>data := snd (match_to_smallest_chain_index (data arg))\<rparr>, out')
    \<and> events ex' = events ex @ map Write (relu_requests E node arg) @ [WaitReluDone]
    \<and> m_unknown_relu_idx ex'
        = filter (\<lambda>i. is_ciphertext (data arg ! i)) [0..<length (data arg)]
    \<and> m_relu_done_count ex' = 0
    \<and> length (data out') = length (data arg)
    \<and> (\<forall>i < length (data arg). is_plaintext (data arg ! i) \<longrightarrow>
          he_value (data out' ! i)
            = Plain (if get_typeid (description node) = Relu
                     then scalar_relu_seal E (get_plaintext (data arg ! i))
                     else scalar_bounded_relu_seal E (get_plaintext (data arg ! i)) (alpha node)))
    \<and> (\<forall>k < length (m_unknown_relu_idx ex').
          data out' ! (m_unknown_relu_idx ex' ! k)
            = returned_slots E (relu_requests E node arg) ! k)"
proof -
  let ?arg1 = "arg\<lparr>data := snd (match_to_smallest_chain_index (data arg))\<rparr>"
  let ?U = "filter (\<lambda>i. is_ciphertext (data arg ! i)) [0..<length (data arg)]"
  let ?reqs = "relu_requests E node arg"
  let ?ret = "returned_slots E ?reqs"
  from send_relu_requests_run [OF tid, of E arg ex] obtain ex5 where
    send: "send_relu_requests E arg node ex = Inr (ex5, ?arg1)" and
    u5: "m_unknown_relu_idx ex5 = ?U" and
    l5: "length (m_relu_data ex5) = length (data arg)" and
    k5: "\<forall>i < length (data arg). is_plaintext (data arg ! i) \<longrightarrow>
          he_value (m_relu_data ex5 ! i)
            = Plain (if get_typeid (description node) = Relu
                     then scalar_relu_seal E (get_plaintext (data arg ! i))
                     else scalar_bounded_relu_seal E (get_plaintext (data arg ! i)) (alpha node))"
    and c5: "m_relu_done_count ex5 = m_relu_done_count ex"
    and e5: "events ex5 = events ex @ map Write ?reqs"
    by blast
  have lenU: "length ?U = length (filter is_ciphertext (data arg))"
    by (rule count_ciphertexts)
  have a2: "distinct (m_unknown_relu_idx ex5)" unfolding u5 by simp
  have a3: "\<forall>i \<in> set (m_unknown_relu_idx ex5). i < length (m_relu_data ex5)"
    unfolding u5 l5 by simp
  have a4: "m_relu_done_count ex5 + length ?ret \<le> length (m_unknown_relu_idx ex5)"
    unfolding u5 c5 idle lenU covered by simp
  from handle_responses_run [OF typed a2 a3 a4] obtain d where
    resp: "handle_responses E ?reqs ex5
        = Inr (ex5\<lparr>m_relu_data := d,
                   m_relu_done_count := m_relu_done_count ex5 + length ?ret\<rparr>)" and
    ld: "length d = length (m_relu_data ex5)" and
    cd: "\<forall>j < length ?ret. d ! (m_unknown_relu_idx ex5 ! (m_relu_done_count ex5 + j)) = ?ret ! j"
    and fd: "\<forall>i. (\<forall>j < length ?ret.
                 i \<noteq> m_unknown_relu_idx ex5 ! (m_relu_done_count ex5 + j))
          \<longrightarrow> d ! i = m_relu_data ex5 ! i"
    by blast
  let ?ex6 = "ex5\<lparr>m_relu_data := d, m_relu_done_count := m_relu_done_count ex5 + length ?ret\<rparr>"
  let ?ex7 = "(log_event WaitReluDone ?ex6)\<lparr>m_relu_done_count := 0\<rparr>"
  have w: "written (drop (length (events ex)) (events ex5)) = ?reqs"
    unfolding e5 by (simp add: written_map)
  have woke: "m_relu_done_count ?ex6 = length (m_unknown_relu_idx ?ex6)"
    using u5 c5 idle lenU covered by simp
  have run: "handle_server_relu_op E arg out node ex
      = Inr (?ex7, ?arg1, out\<lparr>data := m_relu_data ?ex7\<rparr>)"
    unfolding handle_server_relu_op_def send
    using resp woke by (simp add: then_do_def w Let_def)
  have d7: "m_relu_data ?ex7 = d" by (simp add: log_event_def)
  have e7: "events ?ex7 = events ex @ map Write ?reqs @ [WaitReluDone]"
    by (simp add: log_event_def e5)
  have u7: "m_unknown_relu_idx ?ex7 = ?U" by (simp add: log_event_def u5)
  have c7: "m_relu_done_count ?ex7 = 0" by simp
  have known: "he_value (d ! i)
            = Plain (if get_typeid (description node) = Relu
                     then scalar_relu_seal E (get_plaintext (data arg ! i))
                     else scalar_bounded_relu_seal E (get_plaintext (data arg ! i)) (alpha node))"
    if i: "i < length (data arg)" and p: "is_plaintext (data arg ! i)" for i
  proof -
    from p have "\<not> is_ciphertext (data arg ! i)"
      by (simp add: not_plaintext_iff [symmetric])
    then have ni: "i \<notin> set ?U" by simp
    have "\<forall>j < length ?ret. i \<noteq> m_unknown_relu_idx ex5 ! (m_relu_done_count ex5 + j)"
    proof (intro allI impI)
      fix j assume "j < length ?ret"
      then have "j < length ?U" by (simp add: covered lenU)
      then have "?U ! j \<in> set ?U" by (rule nth_mem)
      with ni show "i \<noteq> m_unknown_relu_idx ex5 ! (m_relu_done_count ex5 + j)"
        unfolding u5 c5 idle by auto
    qed
    with fd have "d ! i = m_relu_data ex5 ! i" by blast
    with k5 i p show ?thesis by simp
  qed
  have unknown: "d ! (?U ! k) = ?ret ! k" if "k < length ?U" for k
  proof -
    from that have "k < length ?ret" by (simp add: covered lenU)
    with cd show ?thesis unfolding u5 c5 idle by simp
  qed
  show ?thesis
    apply (rule exI [of _ ?ex7])
    apply (rule exI [of _ "out\<lparr>data := m_relu_data ?ex7\<rparr>"])
    apply (intro conjI)
          apply (rule run)
         apply (rule e7)
        apply (rule u7)
       apply (rule c7)
      apply (simp add: ld l5 log_event_def)
     apply (simp add: known log_event_def)
    apply (simp only: u7)
    apply (simp add: unknown log_event_def)
    done
qed



lemma relu_requests_form:
  "m \<in> set (relu_requests E node arg) \<Longrightarrow> \<exists>pb. m = request_message node pb"
  by (auto simp: relu_requests_def Let_def)

lemma batches_of_concat: "0 < n \<Longrightarrow> concat (batches_of n xs) = xs"
  by (induction n xs rule: batches_of.induct) simp_all

lemma batches_of_sizes:
  "0 < n \<Longrightarrow> b \<in> set (batches_of n xs) \<Longrightarrow> b \<noteq> [] \<and> length b \<le> n"
  by (induction n xs rule: batches_of.induct) auto

lemma relu_tensor_data: "data (relu_tensor arg b) = b"
  by (simp add: relu_tensor_def request_tensor_def Let_def)

lemma concat_map_concat:
  "concat (map f (concat (map g bs))) = concat (map (\<lambda>b. concat (map f (g b))) bs)"
  by (induction bs) simp_all

lemma relu_requests_shipped:
  assumes wire: "\<forall>t. concat (write_to_pb_tensors E t) = data t"
  shows "concat (map (\<lambda>m. concat (he_tensors m)) (relu_requests E node arg))
           = filter is_ciphertext (snd (match_to_smallest_chain_index (data arg)))"
proof -
  have one: "concat (map (\<lambda>m. concat (he_tensors m))
                 (map (request_message node) (write_to_pb_tensors E (relu_tensor a b)))) = b"
    for a b
  proof -
    have "concat (map (\<lambda>m. concat (he_tensors m))
                 (map (request_message node) (write_to_pb_tensors E (relu_tensor a b))))
        = concat (write_to_pb_tensors E (relu_tensor a b))"
      by (simp add: comp_def request_message_def)
    with wire show ?thesis by (simp add: relu_tensor_data)
  qed
  have pos: "0 < max_relu_message_cnt" by (simp add: max_relu_message_cnt_def)
  show ?thesis
    unfolding relu_requests_def Let_def concat_map_concat one
    by (simp add: batches_of_concat [OF pos])
qed

lemma relu_requests_returned:
  assumes wire: "\<forall>t. concat (write_to_pb_tensors E t) = data t"
    and echo: "\<forall>pb. length (he_tensors (client E (request_message node pb)) ! 0) = length pb"
  shows "length (returned_slots E (relu_requests E node arg))
           = length (filter is_ciphertext (data arg))"
proof -
  have each: "length (he_tensors (client E m) ! 0) = length (concat (he_tensors m))"
    if "m \<in> set (relu_requests E node arg)" for m
  proof -
    from relu_requests_form [OF that] obtain pb where "m = request_message node pb" ..
    with echo show ?thesis by (simp add: request_message_def)
  qed
  have "length (returned_slots E (relu_requests E node arg))
      = sum_list (map (\<lambda>m. length (he_tensors (client E m) ! 0)) (relu_requests E node arg))"
    by (simp add: returned_slots_def length_concat comp_def)
  also have "\<dots> = sum_list (map (\<lambda>m. length (concat (he_tensors m))) (relu_requests E node arg))"
    using each by (intro arg_cong [where f = sum_list] map_cong) simp_all
  also have "\<dots> = length (concat (map (\<lambda>m. concat (he_tensors m)) (relu_requests E node arg)))"
    by (simp add: length_concat comp_def)
  finally show ?thesis
    by (simp only: relu_requests_shipped [OF wire] count_matched_ciphertexts)
qed


lemma max_pool_loop_total:
  assumes "\<not> m_max_pool_done ex"
    and "\<forall>l \<in> set ls. l \<noteq> [] \<and> (\<forall>i \<in> set l. i < length (data arg))
          \<and> length (write_to_pb_tensors E (max_pool_tensor (map ((!) (data arg)) l))) = 1
          \<and> good_max_pool_response (client E (max_pool_request E node arg l))"
  shows "\<exists>ex'. max_pool_loop E node arg ls ex = Inr ex'"
  using assms
proof (induction ls arbitrary: ex)
  case Nil
  then show ?case by simp
next
  case (Cons l ls)
  let ?batch = "map ((!) (data arg)) l"
  let ?req = "max_pool_request E node arg l"
  let ?ex1 = "write_message ?req ex"
  let ?ex2 = "?ex1\<lparr>m_max_pool_data := m_max_pool_data ?ex1 @ [he_tensors (client E ?req) ! 0 ! 0],
                   m_max_pool_done := True\<rparr>"
  from Cons.prems(2) have ne: "l \<noteq> []" and idx: "\<forall>i \<in> set l. i < length (data arg)"
    and one: "length (write_to_pb_tensors E (max_pool_tensor ?batch)) = 1"
    and good: "good_max_pool_response (client E ?req)"
    and rest: "\<forall>l \<in> set ls. l \<noteq> [] \<and> (\<forall>i \<in> set l. i < length (data arg))
          \<and> length (write_to_pb_tensors E (max_pool_tensor (map ((!) (data arg)) l))) = 1
          \<and> good_max_pool_response (client E (max_pool_request E node arg l))"
    by simp_all
  from idx have g: "gather (data arg) l = Inr ?batch" by (simp add: gather_Inr)
  from good have h: "handle_message E ?ex1 (client E ?req) = Inr ?ex2"
    by (simp add: good_max_pool_response_def handle_message_def NGRAPH_CHECK_def
        handle_max_pool_result_def Let_def)
  let ?ex3 = "(log_event WaitMaxPoolDone ?ex2)\<lparr>m_max_pool_done := False\<rparr>"
  have step: "max_pool_loop E node arg (l # ls) ex = max_pool_loop E node arg ls ?ex3"
    using g ne one h
    by (simp add: then_do_def NGRAPH_CHECK_def Let_def max_pool_request_def)
  have "\<not> m_max_pool_done ?ex3" by simp
  from Cons.IH [OF this rest] show ?case unfolding step .
qed

lemma handle_server_max_pool_op_total:
  assumes "\<forall>l \<in> set (max_pool_seal_max_list E node).
          l \<noteq> [] \<and> (\<forall>i \<in> set l. i < length (data arg))
          \<and> length (write_to_pb_tensors E (max_pool_tensor (map ((!) (data arg)) l))) = 1
          \<and> good_max_pool_response (client E (max_pool_request E node arg l))"
  shows "\<exists>ex' out'. handle_server_max_pool_op E arg out node ex = Inr (ex', arg, out')"
proof -
  let ?ex2 = "ex\<lparr>m_max_pool_done := False, m_max_pool_data := []\<rparr>"
  have "\<not> m_max_pool_done ?ex2" by simp
  from max_pool_loop_total [OF this assms] obtain ex3 where
    "max_pool_loop E node arg (max_pool_seal_max_list E node) ?ex2 = Inr ex3" ..
  then show ?thesis
    by (simp add: handle_server_max_pool_op_def Let_def then_do_def)
qed

lemma handle_server_relu_op_trace:
  assumes run: "handle_server_relu_op E arg out node ex = Inr (ex', arg', out')"
  shows "arg' = arg\<lparr>data := snd (match_to_smallest_chain_index (data arg))\<rparr>
    \<and> length (data out') = length (data arg)
    \<and> (\<forall>i < length (data arg). is_plaintext (data arg ! i) \<longrightarrow>
          he_value (data out' ! i)
            = Plain (if get_typeid (description node) = Relu
                     then scalar_relu_seal E (get_plaintext (data arg ! i))
                     else scalar_bounded_relu_seal E (get_plaintext (data arg ! i)) (alpha node)))
    \<and> m_unknown_relu_idx ex'
        = filter (\<lambda>i. is_ciphertext (data arg ! i)) [0..<length (data arg)]
    \<and> events ex' = events ex @ map Write (relu_requests E node arg) @ [WaitReluDone]"
proof -
  let ?arg1 = "arg\<lparr>data := snd (match_to_smallest_chain_index (data arg))\<rparr>"
  from run obtain ex5 ex6 where
    send: "send_relu_requests E arg node ex = Inr (ex5, arg')" and
    resp: "handle_responses E (written (drop (length (events ex)) (events ex5))) ex5 = Inr ex6"
    and ex': "ex' = (log_event WaitReluDone ex6)\<lparr>m_relu_done_count := 0\<rparr>"
    and out': "out' = out\<lparr>data := m_relu_data ex6\<rparr>"
    by (auto simp: handle_server_relu_op_def then_do_Inr Let_def log_event_def
        split: if_splits)
  from send_relu_requests_run [OF send_relu_requests_tid [OF send], of E arg ex] send
  have arg': "arg' = ?arg1" and
    u5: "m_unknown_relu_idx ex5
           = filter (\<lambda>i. is_ciphertext (data arg ! i)) [0..<length (data arg)]" and
    l5: "length (m_relu_data ex5) = length (data arg)" and
    k5: "\<forall>i < length (data arg). is_plaintext (data arg ! i) \<longrightarrow>
          he_value (m_relu_data ex5 ! i)
            = Plain (if get_typeid (description node) = Relu
                     then scalar_relu_seal E (get_plaintext (data arg ! i))
                     else scalar_bounded_relu_seal E (get_plaintext (data arg ! i)) (alpha node))"
    and e5: "events ex5 = events ex @ map Write (relu_requests E node arg)"
    by auto
  note f = handle_responses_frame [OF resp]
  have u: "m_unknown_relu_idx ex' = m_unknown_relu_idx ex5"
    using f by (simp add: ex' log_event_def)
  have ev: "events ex' = events ex5 @ [WaitReluDone]"
    using f by (simp add: ex' log_event_def)
  have known: "he_value (data out' ! i)
            = Plain (if get_typeid (description node) = Relu
                     then scalar_relu_seal E (get_plaintext (data arg ! i))
                     else scalar_bounded_relu_seal E (get_plaintext (data arg ! i)) (alpha node))"
    if i: "i < length (data arg)" and p: "is_plaintext (data arg ! i)" for i
  proof -
    from p have "\<not> is_ciphertext (data arg ! i)"
      by (simp add: not_plaintext_iff [symmetric])
    then have "i \<notin> set (m_unknown_relu_idx ex5)" by (simp add: u5)
    with f have "m_relu_data ex6 ! i = m_relu_data ex5 ! i" by blast
    with k5 i p show ?thesis by (simp add: out')
  qed
  have len: "length (data out') = length (data arg)"
    using f l5 by (simp add: out')
  show ?thesis
    apply (intro conjI)
        apply (rule arg')
       apply (rule len)
      apply (simp add: known)
     apply (simp only: u u5)
    apply (simp only: ev e5) apply simp
    done
qed

subsection \<open>Relu and BoundedRelu: known and unknown slots\<close>

text \<open>
  Claim C5. Let the wire tensors of a tensor carry its slots. The handler of a client-aided
  Relu or BoundedRelu completes when no response is counted from an earlier operation and the
  client answers every request with a response to Relu or BoundedRelu that holds one wire
  tensor with as many slots as the request had. Whenever the handler completes, the output has
  one slot per operand slot; the output slot of every plaintext operand slot holds the result
  of the scalar plaintext routine (\<^verbatim>\<open>scalar_relu_seal\<close> for Relu,
  \<^verbatim>\<open>scalar_bounded_relu_seal\<close> with the node's bound otherwise) on that plaintext; the
  indices recorded as unknown are exactly the indices of the ciphertext slots, in ascending
  order; the requests written are, batch by batch, the wire tensors of the request tensors of
  the batches of at most 1000 into which the ciphertext slots (after their chain indices were
  matched) are grouped; a request tensor holds exactly the slots of its batch, so the slots
  shipped, over all requests in order, are exactly the ciphertext slots; and every batch holds
  at least one and at most 1000 slots.
\<close>

theorem relu_partition_into_known_and_unknown:
  assumes wire: "\<forall>t. concat (write_to_pb_tensors E t) = data t"
  shows
   "((get_typeid (description node) = Relu \<or> get_typeid (description node) = BoundedRelu)
      \<and> m_relu_done_count ex = 0
      \<and> (\<forall>pb. relu_response (client E (request_message node pb))
               \<and> length (he_tensors (client E (request_message node pb)) ! 0) = length pb)
     \<longrightarrow> (\<exists>ex1 arg1 out1. handle_server_relu_op E arg out node ex = Inr (ex1, arg1, out1)))
    \<and> (handle_server_relu_op E arg out node ex = Inr (ex', arg', out') \<longrightarrow>
         length (data out') = length (data arg)
       \<and> (\<forall>i < length (data arg). is_plaintext (data arg ! i) \<longrightarrow>
            he_value (data out' ! i)
              = Plain (if get_typeid (description node) = Relu
                       then scalar_relu_seal E (get_plaintext (data arg ! i))
                       else scalar_bounded_relu_seal E (get_plaintext (data arg ! i))
                              (alpha node)))
       \<and> m_unknown_relu_idx ex'
           = filter (\<lambda>i. is_ciphertext (data arg ! i)) [0..<length (data arg)]
       \<and> arg' = arg\<lparr>data := snd (match_to_smallest_chain_index (data arg))\<rparr>
       \<and> written (drop (length (events ex)) (events ex'))
           = concat (map (\<lambda>b. map (request_message node)
                                 (write_to_pb_tensors E (relu_tensor arg' b)))
                      (batches_of 1000 (filter is_ciphertext (data arg'))))
       \<and> (\<forall>b. data (relu_tensor arg' b) = b)
       \<and> concat (map (\<lambda>m. concat (he_tensors m))
                   (written (drop (length (events ex)) (events ex'))))
           = filter is_ciphertext (data arg')
       \<and> filter is_ciphertext (data arg') = map ((!) (data arg')) (m_unknown_relu_idx ex')
       \<and> (\<forall>b \<in> set (batches_of 1000 (filter is_ciphertext (data arg'))).
             b \<noteq> [] \<and> length b \<le> 1000))"
proof (intro conjI impI)
  assume h: "(get_typeid (description node) = Relu \<or> get_typeid (description node) = BoundedRelu)
      \<and> m_relu_done_count ex = 0
      \<and> (\<forall>pb. relu_response (client E (request_message node pb))
               \<and> length (he_tensors (client E (request_message node pb)) ! 0) = length pb)"
  then have tid: "get_typeid (description node) = Relu \<or> get_typeid (description node) = BoundedRelu"
    and idle: "m_relu_done_count ex = 0"
    and good: "\<forall>pb. relu_response (client E (request_message node pb))"
    and echo: "\<forall>pb. length (he_tensors (client E (request_message node pb)) ! 0) = length pb"
    by simp_all
  have typed: "\<forall>m \<in> set (relu_requests E node arg). relu_response (client E m)"
  proof
    fix m assume "m \<in> set (relu_requests E node arg)"
    from relu_requests_form [OF this] good show "relu_response (client E m)" by auto
  qed
  from handle_server_relu_op_run [OF tid idle typed relu_requests_returned [OF wire echo]]
  show "\<exists>ex1 arg1 out1. handle_server_relu_op E arg out node ex = Inr (ex1, arg1, out1)"
    by blast
next
  assume run: "handle_server_relu_op E arg out node ex = Inr (ex', arg', out')"
  note r = handle_server_relu_op_trace [OF run]
  from r have arg': "arg' = arg\<lparr>data := snd (match_to_smallest_chain_index (data arg))\<rparr>"
    and u: "m_unknown_relu_idx ex'
           = filter (\<lambda>i. is_ciphertext (data arg ! i)) [0..<length (data arg)]"
    and ev: "events ex' = events ex @ map Write (relu_requests E node arg) @ [WaitReluDone]"
    by blast+
  have d': "data arg' = snd (match_to_smallest_chain_index (data arg))"
    by (simp add: arg')
  have w: "written (drop (length (events ex)) (events ex')) = relu_requests E node arg"
    unfolding ev by (simp add: written_append written_map)
  from r show "length (data out') = length (data arg)" by blast
  from r show "\<forall>i < length (data arg). is_plaintext (data arg ! i) \<longrightarrow>
            he_value (data out' ! i)
              = Plain (if get_typeid (description node) = Relu
                       then scalar_relu_seal E (get_plaintext (data arg ! i))
                       else scalar_bounded_relu_seal E (get_plaintext (data arg ! i))
                              (alpha node))" by blast
  from u show "m_unknown_relu_idx ex'
           = filter (\<lambda>i. is_ciphertext (data arg ! i)) [0..<length (data arg)]" .
  from arg' show "arg' = arg\<lparr>data := snd (match_to_smallest_chain_index (data arg))\<rparr>" .
  show "written (drop (length (events ex)) (events ex'))
           = concat (map (\<lambda>b. map (request_message node)
                                 (write_to_pb_tensors E (relu_tensor arg' b)))
                      (batches_of 1000 (filter is_ciphertext (data arg'))))"
    unfolding w by (simp add: relu_requests_def Let_def arg' max_relu_message_cnt_def)
  show "\<forall>b. data (relu_tensor arg' b) = b" by (simp add: relu_tensor_data)
  show "concat (map (\<lambda>m. concat (he_tensors m))
                   (written (drop (length (events ex)) (events ex'))))
           = filter is_ciphertext (data arg')"
    unfolding w d' by (rule relu_requests_shipped [OF wire])
  show "filter is_ciphertext (data arg') = map ((!) (data arg')) (m_unknown_relu_idx ex')"
    unfolding d' u by (rule matched_ciphertexts [symmetric])
  show "\<forall>b \<in> set (batches_of 1000 (filter is_ciphertext (data arg'))).
             b \<noteq> [] \<and> length b \<le> 1000"
    using batches_of_sizes [of 1000] by auto
qed

lemma get_typeid_Relu: "get_typeid ''Relu'' = Relu"
  by (simp add: get_typeid_def supported_ids_def)

lemma sample_wire: "\<forall>t. concat (write_to_pb_tensors sample_env t) = data t"
  by (simp add: sample_env_def)

lemma sample_relu_client:
  "\<forall>pb. relu_response (client sample_env (request_message (sample_node ''Relu'') pb))
        \<and> length (he_tensors (client sample_env (request_message (sample_node ''Relu'') pb)) ! 0)
            = length pb"
  by (simp add: sample_env_def sample_client_def request_message_def sample_node_def
      relu_response_def)

theorem relu_partition_into_known_and_unknown_witness:
  "(\<forall>t. concat (write_to_pb_tensors sample_env t) = data t)
   \<and> get_typeid (description (sample_node ''Relu'')) = Relu
   \<and> m_relu_done_count (sample_executable False True) = 0
   \<and> (\<forall>pb. relu_response (client sample_env (request_message (sample_node ''Relu'') pb))
        \<and> length (he_tensors (client sample_env (request_message (sample_node ''Relu'') pb)) ! 0)
            = length pb)
   \<and> (\<exists>ex' arg' out'.
     handle_server_relu_op sample_env
       (sample_tensor [sample_plain [- 1, 2], sample_cipher 2 5, sample_cipher 1 6])
       (sample_tensor []) (sample_node ''Relu'') (sample_executable False True)
     = Inr (ex', arg', out')
     \<and> is_plaintext (sample_plain [- 1, 2])
     \<and> length (data out') = 3
     \<and> he_value (data out' ! 0) = Plain [0, 2]
     \<and> m_unknown_relu_idx ex' = [1, 2]
     \<and> concat (map (\<lambda>m. concat (he_tensors m)) (written (events ex')))
         = [sample_cipher 1 5, sample_cipher 1 6])"
proof -
  let ?arg = "sample_tensor [sample_plain [- 1, 2], sample_cipher 2 5, sample_cipher 1 6]"
  let ?node = "sample_node ''Relu''"
  let ?ex = "sample_executable False True"
  have tid: "get_typeid (description ?node) = Relu"
    by (simp add: sample_node_def get_typeid_Relu)
  have idle: "m_relu_done_count ?ex = 0" by (simp add: sample_executable_def)
  note th = relu_partition_into_known_and_unknown [OF sample_wire]
  from th [where node = ?node and ex = ?ex and arg = ?arg and out = "sample_tensor []",
      THEN conjunct1, THEN mp] tid idle sample_relu_client
  obtain ex' arg' out' where run:
    "handle_server_relu_op sample_env ?arg (sample_tensor []) ?node ?ex = Inr (ex', arg', out')"
    by blast
  note t = th [where node = ?node and ex = ?ex and arg = ?arg and out = "sample_tensor []"
      and ex' = ex' and arg' = arg' and out' = out', THEN conjunct2, THEN mp, OF run]
  have p: "is_plaintext (sample_plain [- 1, 2])"
    by (simp add: is_plaintext_def sample_plain_def)
  have c: "is_ciphertext (sample_cipher i v)" "\<not> is_ciphertext (sample_plain q)" for i v q
    by (simp_all add: is_ciphertext_def sample_cipher_def sample_plain_def)
  have up: "[0..<3] = [0, 1, 2]" by (simp add: upt_rec)
  have e: "events ?ex = []" by (simp add: sample_executable_def)
  from t [THEN conjunct1] have 1: "length (data out') = 3"
    by (simp add: sample_tensor_def)
  from t [THEN conjunct2, THEN conjunct1, THEN spec, of 0]
  have 2: "he_value (data out' ! 0) = Plain [0, 2]"
    by (simp add: sample_tensor_def sample_node_def get_typeid_Relu sample_env_def
        get_plaintext_def sample_plain_def is_plaintext_def)
  from t [THEN conjunct2, THEN conjunct2, THEN conjunct1]
  have 3: "m_unknown_relu_idx ex' = [1, 2]"
    by (simp add: sample_tensor_def up c)
  from t have a: "arg' = ?arg\<lparr>data := snd (match_to_smallest_chain_index (data ?arg))\<rparr>"
    and s: "concat (map (\<lambda>m. concat (he_tensors m))
                   (written (drop (length (events ?ex)) (events ex'))))
           = filter is_ciphertext (data arg')"
    by blast+
  have m: "snd (match_to_smallest_chain_index (data ?arg))
      = [sample_plain [- 1, 2], sample_cipher 1 5, sample_cipher 1 6]"
    by (simp add: sample_tensor_def match_to_smallest_chain_index_def smallest_chain_index_def
        SIZE_MAX_def switch_slot_def sample_plain_def sample_cipher_def mod_switch_to_def)
  have da: "data arg' = snd (match_to_smallest_chain_index (data ?arg))"
    unfolding a by simp
  have fm: "filter is_ciphertext (snd (match_to_smallest_chain_index (data ?arg)))
      = [sample_cipher 1 5, sample_cipher 1 6]"
    unfolding m by (simp add: c)
  from s have 4: "concat (map (\<lambda>m. concat (he_tensors m)) (written (events ex')))
         = [sample_cipher 1 5, sample_cipher 1 6]"
    unfolding da fm e by simp
  from sample_wire tid idle sample_relu_client run p 1 2 3 4 show ?thesis by blast
qed

subsection \<open>MaxPool: one request per output cell\<close>

lemma handle_server_max_pool_op_result:
  assumes run: "handle_server_max_pool_op E arg out node ex = Inr (ex', arg', out')"
  shows "events ex' = events ex
           @ concat (map (\<lambda>l. [Write (max_pool_request E node arg l), WaitMaxPoolDone])
                       (max_pool_seal_max_list E node))
    \<and> data out' = map (\<lambda>l. he_tensors (client E (max_pool_request E node arg l)) ! 0 ! 0)
                     (max_pool_seal_max_list E node)
    \<and> (\<forall>l \<in> set (max_pool_seal_max_list E node).
          l \<noteq> [] \<and> (\<forall>i \<in> set l. i < length (data arg))
          \<and> length (write_to_pb_tensors E (max_pool_tensor (map ((!) (data arg)) l))) = 1
          \<and> good_max_pool_response (client E (max_pool_request E node arg l)))"
proof -
  let ?ex2 = "ex\<lparr>m_max_pool_done := False, m_max_pool_data := []\<rparr>"
  from run obtain ex3 where
    loop: "max_pool_loop E node arg (max_pool_seal_max_list E node) ?ex2 = Inr ex3" and
    ex': "ex' = ex3" and out': "out' = out\<lparr>data := m_max_pool_data ex3\<rparr>"
    by (auto simp: handle_server_max_pool_op_def Let_def then_do_Inr)
  have "\<not> m_max_pool_done ?ex2" by simp
  from max_pool_loop_Inr [OF loop this] show ?thesis
    by (simp add: ex' out')
qed


lemma written_max_pool_trace:
  "written (concat (map (\<lambda>l. [Write (f l), WaitMaxPoolDone]) ls)) = map f ls"
  by (induction ls) simp_all

text \<open>
  Claim C6. The handler of a client-aided MaxPool completes when every maximize list is
  non-empty and lies within the operand, every request tensor travels in one wire tensor, and
  the client answers the request of every cell with a response to MaxPool that holds one wire
  tensor with one slot. Whenever the handler completes, the requests it wrote are, in order,
  one per maximize list (one per output cell); no maximize list is empty; the request of a
  cell carries the wire tensor of the tensor whose slots are the operand slots at the indices
  of the cell's list; every response held one wire tensor with one slot, and the output tensor
  holds these slots in the order of the cells. A response with one wire tensor whose number of
  slots is not 1 is rejected by \<^verbatim>\<open>handle_max_pool_result\<close>.
\<close>

theorem max_pool_one_request_per_output_cell:
  "((\<forall>l \<in> set (max_pool_seal_max_list E node).
        l \<noteq> [] \<and> (\<forall>i \<in> set l. i < length (data arg))
        \<and> length (write_to_pb_tensors E (max_pool_tensor (map ((!) (data arg)) l))) = 1
        \<and> good_max_pool_response (client E (max_pool_request E node arg l)))
     \<longrightarrow> (\<exists>ex1 out1. handle_server_max_pool_op E arg out node ex = Inr (ex1, arg, out1)))
   \<and> (handle_server_max_pool_op E arg out node ex = Inr (ex', arg', out') \<longrightarrow>
      written (drop (length (events ex)) (events ex'))
        = map (max_pool_request E node arg) (max_pool_seal_max_list E node)
    \<and> data out' = map (\<lambda>l. he_tensors (client E (max_pool_request E node arg l)) ! 0 ! 0)
                     (max_pool_seal_max_list E node)
    \<and> (\<forall>l \<in> set (max_pool_seal_max_list E node).
          l \<noteq> [] \<and> (\<forall>i \<in> set l. i < length (data arg))
          \<and> he_tensors (max_pool_request E node arg l)
              = write_to_pb_tensors E (max_pool_tensor (map ((!) (data arg)) l))
          \<and> data (max_pool_tensor (map ((!) (data arg)) l)) = map ((!) (data arg)) l
          \<and> length (he_tensors (client E (max_pool_request E node arg l))) = 1
          \<and> length (he_tensors (client E (max_pool_request E node arg l)) ! 0) = 1))
   \<and> (length (he_tensors msg) = 1 \<and> length (he_tensors msg ! 0) \<noteq> 1 \<longrightarrow>
        handle_max_pool_result st msg
          = Inl (CheckFailure ''Maxpool only supports result_count 1''))"
proof (intro conjI impI)
  assume "\<forall>l \<in> set (max_pool_seal_max_list E node).
        l \<noteq> [] \<and> (\<forall>i \<in> set l. i < length (data arg))
        \<and> length (write_to_pb_tensors E (max_pool_tensor (map ((!) (data arg)) l))) = 1
        \<and> good_max_pool_response (client E (max_pool_request E node arg l))"
  then show "\<exists>ex1 out1. handle_server_max_pool_op E arg out node ex = Inr (ex1, arg, out1)"
    by (rule handle_server_max_pool_op_total)
next
  assume run: "handle_server_max_pool_op E arg out node ex = Inr (ex', arg', out')"
  note r = handle_server_max_pool_op_result [OF run]
  from r show "written (drop (length (events ex)) (events ex'))
        = map (max_pool_request E node arg) (max_pool_seal_max_list E node)"
    by (simp add: written_max_pool_trace)
  from r show "data out' = map (\<lambda>l. he_tensors (client E (max_pool_request E node arg l)) ! 0 ! 0)
                     (max_pool_seal_max_list E node)"
    by simp
  have cell: "l \<noteq> [] \<and> (\<forall>i \<in> set l. i < length (data arg))
          \<and> he_tensors (max_pool_request E node arg l)
              = write_to_pb_tensors E (max_pool_tensor (map ((!) (data arg)) l))
          \<and> data (max_pool_tensor (map ((!) (data arg)) l)) = map ((!) (data arg)) l
          \<and> length (he_tensors (client E (max_pool_request E node arg l))) = 1
          \<and> length (he_tensors (client E (max_pool_request E node arg l)) ! 0) = 1"
    if l: "l \<in> set (max_pool_seal_max_list E node)" for l
  proof -
    from l r have ne: "l \<noteq> []" and idx: "\<forall>i \<in> set l. i < length (data arg)"
      and one: "length (write_to_pb_tensors E (max_pool_tensor (map ((!) (data arg)) l))) = 1"
      and good: "good_max_pool_response (client E (max_pool_request E node arg l))"
      by blast+
    from one have carried: "he_tensors (max_pool_request E node arg l)
              = write_to_pb_tensors E (max_pool_tensor (map ((!) (data arg)) l))"
      by (cases "write_to_pb_tensors E (max_pool_tensor (map ((!) (data arg)) l))")
        (simp_all add: max_pool_request_def request_message_def)
    have slots: "data (max_pool_tensor (map ((!) (data arg)) l)) = map ((!) (data arg)) l"
      by (simp add: max_pool_tensor_def request_tensor_def Let_def)
    from good have "length (he_tensors (client E (max_pool_request E node arg l))) = 1"
      and "length (he_tensors (client E (max_pool_request E node arg l)) ! 0) = 1"
      by (simp_all add: good_max_pool_response_def)
    with ne idx carried slots show ?thesis by blast
  qed
  then show "\<forall>l \<in> set (max_pool_seal_max_list E node).
          l \<noteq> [] \<and> (\<forall>i \<in> set l. i < length (data arg))
          \<and> he_tensors (max_pool_request E node arg l)
              = write_to_pb_tensors E (max_pool_tensor (map ((!) (data arg)) l))
          \<and> data (max_pool_tensor (map ((!) (data arg)) l)) = map ((!) (data arg)) l
          \<and> length (he_tensors (client E (max_pool_request E node arg l))) = 1
          \<and> length (he_tensors (client E (max_pool_request E node arg l)) ! 0) = 1"
    by blast
next
  assume "length (he_tensors msg) = 1 \<and> length (he_tensors msg ! 0) \<noteq> 1"
  then show "handle_max_pool_result st msg
          = Inl (CheckFailure ''Maxpool only supports result_count 1'')"
    by (simp add: handle_max_pool_result_def NGRAPH_CHECK_def Let_def)
qed

lemma sample_max_pool_session:
  "\<forall>l \<in> set (max_pool_seal_max_list sample_env (sample_node ''MaxPool'')).
        l \<noteq> []
        \<and> (\<forall>i \<in> set l. i < length (data (sample_tensor
               [sample_cipher 1 10, sample_cipher 1 11, sample_cipher 1 12, sample_cipher 1 13])))
        \<and> length (write_to_pb_tensors sample_env (max_pool_tensor (map ((!) (data (sample_tensor
               [sample_cipher 1 10, sample_cipher 1 11, sample_cipher 1 12, sample_cipher 1 13])))
                l))) = 1
        \<and> good_max_pool_response (client sample_env (max_pool_request sample_env
             (sample_node ''MaxPool'') (sample_tensor
               [sample_cipher 1 10, sample_cipher 1 11, sample_cipher 1 12, sample_cipher 1 13])
             l))"
  by (simp add: sample_env_def sample_tensor_def good_max_pool_response_def sample_client_def
      max_pool_request_def request_message_def sample_node_def max_pool_tensor_def
      request_tensor_def Let_def)

theorem max_pool_one_request_per_output_cell_witness:
  "good_max_pool_response (client sample_env (max_pool_request sample_env
       (sample_node ''MaxPool'')
       (sample_tensor [sample_cipher 1 10, sample_cipher 1 11, sample_cipher 1 12,
                       sample_cipher 1 13]) [0, 1]))
   \<and> good_max_pool_response (client sample_env (max_pool_request sample_env
       (sample_node ''MaxPool'')
       (sample_tensor [sample_cipher 1 10, sample_cipher 1 11, sample_cipher 1 12,
                       sample_cipher 1 13]) [2, 3]))
   \<and> (\<exists>ex' out'.
      handle_server_max_pool_op sample_env
        (sample_tensor [sample_cipher 1 10, sample_cipher 1 11, sample_cipher 1 12,
                        sample_cipher 1 13])
        (sample_tensor []) (sample_node ''MaxPool'') (sample_executable False True)
      = Inr (ex', sample_tensor [sample_cipher 1 10, sample_cipher 1 11, sample_cipher 1 12,
                        sample_cipher 1 13], out')
      \<and> length (written (events ex')) = 2
      \<and> data out' = [sample_cipher 1 10, sample_cipher 1 12])
   \<and> max_pool_seal_max_list sample_env (sample_node ''MaxPool'') = [[0, 1], [2, 3]]
   \<and> length (he_tensors \<lparr>msg_type = RESPONSE, function_name = Some ''MaxPool'',
                          he_tensors = [[]]\<rparr>) = 1
   \<and> length (he_tensors \<lparr>msg_type = RESPONSE, function_name = Some ''MaxPool'',
                          he_tensors = [[]]\<rparr> ! 0) \<noteq> 1
   \<and> handle_max_pool_result (sample_executable False True)
        \<lparr>msg_type = RESPONSE, function_name = Some ''MaxPool'', he_tensors = [[]]\<rparr>
      = Inl (CheckFailure ''Maxpool only supports result_count 1'')"
proof -
  let ?arg = "sample_tensor [sample_cipher 1 10, sample_cipher 1 11, sample_cipher 1 12,
                             sample_cipher 1 13]"
  let ?msg = "\<lparr>msg_type = RESPONSE, function_name = Some ''MaxPool'', he_tensors = [[]]\<rparr>"
  note s = sample_max_pool_session
  from max_pool_one_request_per_output_cell
    [where E = sample_env and arg = ?arg and out = "sample_tensor []"
       and node = "sample_node ''MaxPool''" and ex = "sample_executable False True",
     THEN conjunct1, THEN mp, OF s]
  obtain ex' out' where run:
    "handle_server_max_pool_op sample_env ?arg (sample_tensor []) (sample_node ''MaxPool'')
       (sample_executable False True) = Inr (ex', ?arg, out')"
    by blast
  have lists: "max_pool_seal_max_list sample_env (sample_node ''MaxPool'') = [[0, 1], [2, 3]]"
    by (simp add: sample_env_def)
  have m: "length (he_tensors ?msg) = 1 \<and> length (he_tensors ?msg ! 0) \<noteq> 1" by simp
  note t = max_pool_one_request_per_output_cell
    [of sample_env "sample_node ''MaxPool''" ?arg "sample_tensor []"
        "sample_executable False True" ex' ?arg out' ?msg "sample_executable False True"]
  from t run have w: "written (drop (length (events (sample_executable False True))) (events ex'))
        = map (max_pool_request sample_env (sample_node ''MaxPool'') ?arg) [[0, 1], [2, 3]]"
    and d: "data out'
        = map (\<lambda>l. he_tensors (client sample_env
                 (max_pool_request sample_env (sample_node ''MaxPool'') ?arg l)) ! 0 ! 0)
            [[0, 1], [2, 3]]"
    unfolding lists by blast+
  from w have "length (written (events ex')) = 2"
    by (simp add: sample_executable_def)
  moreover from d have "data out' = [sample_cipher 1 10, sample_cipher 1 12]"
    by (simp add: max_pool_request_def sample_env_def sample_client_def request_message_def
        max_pool_tensor_def request_tensor_def sample_tensor_def sample_node_def Let_def
        sample_cipher_def)
  moreover from t m have "handle_max_pool_result (sample_executable False True) ?msg
      = Inl (CheckFailure ''Maxpool only supports result_count 1'')"
    by blast
  moreover have "good_max_pool_response (client sample_env (max_pool_request sample_env
       (sample_node ''MaxPool'') ?arg [0, 1]))"
    and "good_max_pool_response (client sample_env (max_pool_request sample_env
       (sample_node ''MaxPool'') ?arg [2, 3]))"
    by (simp_all add: sample_env_def sample_tensor_def good_max_pool_response_def
        sample_client_def max_pool_request_def request_message_def sample_node_def
        max_pool_tensor_def request_tensor_def Let_def)
  ultimately show ?thesis using run lists m by blast
qed

subsection \<open>Requests outstanding at a time\<close>









end
